theory Spec2Isabelle
  imports Main "HOL-Library.Sublist" "HOL-Library.Char_ord"
begin

section \<open>Errors\<close>

text \<open>
  Every \<^verbatim>\<open>throw\<close> of the sources and every run-time failure of the JavaScript they
  compile to is a value.  \<open>TemplateUndefined\<close> and \<open>InvalidDataContext\<close> are the two
  \<^verbatim>\<open>new Error(...)\<close> of \<^verbatim>\<open>Repeater.attachedCallback\<close>, \<open>NonExistingTemplate\<close> is the one
  of the \<^verbatim>\<open>Component\<close> constructor, \<open>TypeError\<close> is a property read or a call on
  \<^verbatim>\<open>null\<close>/\<^verbatim>\<open>undefined\<close>, \<open>NotFoundError\<close> is the DOM exception of
  \<^verbatim>\<open>insertBefore\<close> with a reference node that is not a child.
\<close>

datatype error =
    TemplateUndefined
  | InvalidDataContext
  | NonExistingTemplate
  | TypeError
  | NotFoundError

section \<open>Component.show and Component.hide\<close>

text \<open>
  DOM nodes are object identities (\<open>nat\<close>).  The browser's DOM is not code of the
  repository: its state is a type parameter \<open>'d\<close> and the five members the two methods
  use are taken as parameters; those that change the DOM fail or return the new DOM.  The methods
  \<^verbatim>\<open>insertBefore\<close>, \<^verbatim>\<open>appendChild\<close> and \<^verbatim>\<open>removeChild\<close> return the node they were
  given, which is what \<^verbatim>\<open>rootHtmlElement\<close> is assigned.
\<close>

record 'd dom_ops =
  dom_parentNode :: "'d \<Rightarrow> nat \<Rightarrow> nat option"
  dom_parentElement :: "'d \<Rightarrow> nat \<Rightarrow> nat option"
  dom_insertBefore :: "'d \<Rightarrow> nat \<Rightarrow> nat \<Rightarrow> nat \<Rightarrow> error + 'd"
  dom_appendChild :: "'d \<Rightarrow> nat \<Rightarrow> nat \<Rightarrow> error + 'd"
  dom_removeChild :: "'d \<Rightarrow> nat \<Rightarrow> nat \<Rightarrow> error + 'd"

text \<open>
  The fields of a \<^verbatim>\<open>Component\<close> that \<^verbatim>\<open>show\<close> and \<^verbatim>\<open>hide\<close> read or write, and the
  document.  \<open>rootHtmlElement = None\<close> is \<^verbatim>\<open>null\<close> (after \<^verbatim>\<open>destroy\<close>);
  \<open>parentComponent = None\<close> is no parent, \<open>Some r\<close> a parent whose own
  \<^verbatim>\<open>rootHtmlElement\<close> is \<open>r\<close>.
\<close>

record 'd view =
  isShowing :: bool
  rootHtmlElement :: "nat option"
  parentComponent :: "nat option option"
  document :: 'd

definition "show" :: "'d dom_ops \<Rightarrow> nat \<Rightarrow> 'd view \<Rightarrow> nat option \<Rightarrow> error + 'd view" where
  "show ops body s replaceElement =
     (if isShowing s then Inr s
      else
        let appendParent = (case parentComponent s of None \<Rightarrow> Some body | Some r \<Rightarrow> r) in
        (case replaceElement of
           Some e \<Rightarrow>
             (case dom_parentNode ops (document s) e of
                None \<Rightarrow> Inl TypeError
              | Some p \<Rightarrow>
                 (case rootHtmlElement s of
                    None \<Rightarrow> Inl TypeError
                  | Some root \<Rightarrow>
                     (case dom_insertBefore ops (document s) p root e of
                        Inl err \<Rightarrow> Inl err
                      | Inr d1 \<Rightarrow>
                         (case dom_parentNode ops d1 e of
                            None \<Rightarrow> Inl TypeError
                          | Some p' \<Rightarrow>
                             (case dom_removeChild ops d1 p' e of
                                Inl err \<Rightarrow> Inl err
                              | Inr d2 \<Rightarrow> Inr (s\<lparr>document := d2, isShowing := True\<rparr>))))))
         | None \<Rightarrow>
             (case appendParent of
                None \<Rightarrow> Inl TypeError
              | Some p \<Rightarrow>
                 (case rootHtmlElement s of
                    None \<Rightarrow> Inl TypeError
                  | Some root \<Rightarrow>
                     (case dom_appendChild ops (document s) p root of
                        Inl err \<Rightarrow> Inl err
                      | Inr d1 \<Rightarrow> Inr (s\<lparr>document := d1, isShowing := True\<rparr>))))))"

definition hide :: "'d dom_ops \<Rightarrow> 'd view \<Rightarrow> error + 'd view" where
  "hide ops s =
     (if \<not> isShowing s then Inr s
      else
        (case rootHtmlElement s of
           None \<Rightarrow> Inl TypeError
         | Some root \<Rightarrow>
            (case dom_parentElement ops (document s) root of
               None \<Rightarrow> Inl TypeError
             | Some p \<Rightarrow>
                (case dom_removeChild ops (document s) p root of
                   Inl err \<Rightarrow> Inl err
                 | Inr d1 \<Rightarrow> Inr (s\<lparr>document := d1, isShowing := False\<rparr>)))))"

text \<open>
  A small concrete DOM, used to run the two methods: the child lists of the nodes that
  have children, as an association list.  A node is moved, not copied, when it is
  inserted; every parent is an element.
\<close>

type_synonym simple_dom = "(nat \<times> nat list) list"

definition sd_parentNode :: "simple_dom \<Rightarrow> nat \<Rightarrow> nat option" where
  "sd_parentNode d n = map_option fst (find (\<lambda>(p, cs). n \<in> set cs) d)"

definition sd_children :: "simple_dom \<Rightarrow> nat \<Rightarrow> nat list" where
  "sd_children d p = (case map_of d p of None \<Rightarrow> [] | Some cs \<Rightarrow> cs)"

definition sd_detach :: "simple_dom \<Rightarrow> nat \<Rightarrow> simple_dom" where
  "sd_detach d n = map (\<lambda>(p, cs). (p, removeAll n cs)) d"

definition sd_set_children :: "simple_dom \<Rightarrow> nat \<Rightarrow> nat list \<Rightarrow> simple_dom" where
  "sd_set_children d p cs = (p, cs) # filter (\<lambda>(q, _). q \<noteq> p) d"

definition sd_removeChild :: "simple_dom \<Rightarrow> nat \<Rightarrow> nat \<Rightarrow> error + simple_dom" where
  "sd_removeChild d p n =
     (if n \<in> set (sd_children d p) then Inr (sd_detach d n) else Inl NotFoundError)"

definition sd_appendChild :: "simple_dom \<Rightarrow> nat \<Rightarrow> nat \<Rightarrow> error + simple_dom" where
  "sd_appendChild d p n =
     (let d1 = sd_detach d n in Inr (sd_set_children d1 p (sd_children d1 p @ [n])))"

definition sd_insertBefore :: "simple_dom \<Rightarrow> nat \<Rightarrow> nat \<Rightarrow> nat \<Rightarrow> error + simple_dom" where
  "sd_insertBefore d p n r =
     (if r \<notin> set (sd_children d p) then Inl NotFoundError
      else if n = r then Inr d
      else
        let d1 = sd_detach d n; cs = sd_children d1 p in
        Inr (sd_set_children d1 p (takeWhile (\<lambda>c. c \<noteq> r) cs @ n # dropWhile (\<lambda>c. c \<noteq> r) cs)))"

definition simple_ops :: "simple_dom dom_ops" where
  "simple_ops =
     \<lparr>dom_parentNode = sd_parentNode, dom_parentElement = sd_parentNode,
      dom_insertBefore = sd_insertBefore,
      dom_appendChild = sd_appendChild, dom_removeChild = sd_removeChild\<rparr>"

definition view_hidden :: "simple_dom view" where
  "view_hidden =
     \<lparr>isShowing = False, rootHtmlElement = Some 1, parentComponent = None,
      document = [(0, [])]\<rparr>"

definition view_shown :: "simple_dom view" where
  "view_shown =
     \<lparr>isShowing = True, rootHtmlElement = Some 1, parentComponent = None,
      document = [(0, [1])]\<rparr>"

section \<open>Strings: the binding pattern and String.replace\<close>

text \<open>
  \<^verbatim>\<open>Component.bindingRegex\<close> is \<^verbatim>\<open>/{{[a-zA-Z._0-9]+}}/g\<close>.  The class excludes the
  closing brace, so a match at a position is decided without backtracking: two opening
  braces, the longest run of class characters, which is not empty, two closing braces.
  \<open>match_here s\<close> is the match that starts at the head of \<open>s\<close>.
\<close>

definition is_path_char :: "char \<Rightarrow> bool" where
  "is_path_char c =
     ((CHR ''a'' \<le> c \<and> c \<le> CHR ''z'') \<or> (CHR ''A'' \<le> c \<and> c \<le> CHR ''Z'') \<or>
      c = CHR ''.'' \<or> c = CHR ''_'' \<or> (CHR ''0'' \<le> c \<and> c \<le> CHR ''9''))"

definition match_here :: "string \<Rightarrow> string option" where
  "match_here s =
     (if take 2 s = ''{{'' then
        let run = takeWhile is_path_char (drop 2 s);
            rest = dropWhile is_path_char (drop 2 s)
        in if run \<noteq> [] \<and> take 2 rest = ''}}'' then Some (''{{'' @ run @ ''}}'') else None
      else None)"

text \<open>
  \<^verbatim>\<open>text.match(bindingRegex)\<close> with the global flag: all matches, left to right, each
  search resuming after the previous match; \<^verbatim>\<open>null\<close> when there is none.
\<close>

function all_matches :: "string \<Rightarrow> string list" where
  "all_matches [] = []"
| "all_matches (c # cs) =
     (case match_here (c # cs) of
        Some m \<Rightarrow> m # all_matches (drop (length m - 1) cs)
      | None \<Rightarrow> all_matches cs)"
  by pat_completeness auto
termination
  by (relation "measure length") auto

definition js_match :: "string \<Rightarrow> string list option" where
  "js_match s = (case all_matches s of [] \<Rightarrow> None | ms \<Rightarrow> Some ms)"

text \<open>\<^verbatim>\<open>m.substr(2, m.length - 4)\<close>: a negative length gives the empty string.\<close>

definition path_of_match :: "string \<Rightarrow> string" where
  "path_of_match m = take (length m - 4) (drop 2 m)"

text \<open>
  \<^verbatim>\<open>text.replace(pattern, replacement)\<close> with a string pattern: only the first
  occurrence is replaced, and the replacement is expanded as ECMAScript's GetSubstitution
  does with no capture groups: \<^verbatim>\<open>$$\<close> is a dollar sign, \<^verbatim>\<open>$&\<close> the matched text,
  \<^verbatim>\<open>$`\<close> the text before the match, \<^verbatim>\<open>$'\<close> the text after it, any other character
  (also a dollar sign before a digit) stands for itself.
\<close>

fun split_first :: "string \<Rightarrow> string \<Rightarrow> string \<Rightarrow> (string \<times> string) option" where
  "split_first pat pre [] = (if pat = [] then Some (rev pre, []) else None)"
| "split_first pat pre (c # cs) =
     (if prefix pat (c # cs) then Some (rev pre, drop (length pat) (c # cs))
      else split_first pat (c # pre) cs)"

fun get_substitution :: "string \<Rightarrow> string \<Rightarrow> string \<Rightarrow> string \<Rightarrow> string" where
  "get_substitution matched pre post [] = []"
| "get_substitution matched pre post [c] = [c]"
| "get_substitution matched pre post (c # d # r) =
     (if c = CHR ''$'' then
        (if d = CHR ''$'' then CHR ''$'' # get_substitution matched pre post r
         else if d = CHR ''&'' then matched @ get_substitution matched pre post r
         else if d = CHR 0x60 then pre @ get_substitution matched pre post r
         else if d = CHR 0x27 then post @ get_substitution matched pre post r
         else c # get_substitution matched pre post (d # r))
      else c # get_substitution matched pre post (d # r))"

definition js_replace :: "string \<Rightarrow> string \<Rightarrow> string \<Rightarrow> string" where
  "js_replace text pat replacement =
     (case split_first pat [] text of
        None \<Rightarrow> text
      | Some (pre, post) \<Rightarrow> pre @ get_substitution pat pre post replacement @ post)"

section \<open>Component: the DOM under a component and its binding tables\<close>

text \<open>
  The DOM subtree of a component.  Every node has an identity; an element carries the
  value of its \<^verbatim>\<open>data-component\<close> attribute when it has one, and its
  \<^verbatim>\<open>childNodes\<close>.  \<open>OtherNode\<close> is a node that is neither an element (nodeType 1)
  nor a text node (nodeType 3), a comment for instance.  What the binding code mutates,
  the \<^verbatim>\<open>id\<close> of an element and the \<^verbatim>\<open>nodeValue\<close> of a text node, lives in two
  stores keyed by node identity.
\<close>

datatype dnode =
    TextNode nat
  | ElemNode nat "string option" "dnode list"
  | OtherNode nat

text \<open>
  The \<^verbatim>\<open>id\<close> attribute: \<open>BindingElement n\<close> is the string \<^verbatim>\<open>"BindingElement" + n\<close>,
  \<open>TemplateId s\<close> any other id written in a template.
\<close>

datatype elem_id = BindingElement nat | TemplateId string

record TextBindingInfo =
  elementBindingId :: nat
  textNodeIndex :: nat
  bindingPath :: string
  bindingText :: string

record PropertyBindingInfo =
  propertyBindingPath :: string
  bindingProperty :: string

text \<open>
  The two closures stored as \<^verbatim>\<open>updateCallback\<close>: the one of a text binding calls
  \<^verbatim>\<open>triggerBindingUpdate(path)\<close>, the one of a property binding assigns
  \<^verbatim>\<open>this[propertyName].value\<close>.
\<close>

datatype callback = TextUpdate string | PropertyUpdate string

text \<open>
  A component.  \<open>observables\<close> maps the name of each \<^verbatim>\<open>Observable\<close> field of the
  object to the string its value renders as (a name that is not bound is \<^verbatim>\<open>undefined\<close>);
  \<open>subscriptions\<close> are the subscribers of each field's \<^verbatim>\<open>onValueChanged\<close>, in
  subscription order; \<open>bindingIdCounter\<close> is the static counter; \<open>subComponents\<close> lists
  the elements handed to \<^verbatim>\<open>processSubComponent\<close>, with their component id.
\<close>

record component =
  textBindings :: "string \<rightharpoonup> TextBindingInfo list"
  propertyBindings :: "string \<rightharpoonup> PropertyBindingInfo list"
  observables :: "string \<rightharpoonup> string"
  subscriptions :: "string \<Rightarrow> callback list"
  bindingIdCounter :: nat
  elemId :: "nat \<rightharpoonup> elem_id"
  nodeValue :: "nat \<Rightarrow> string"
  rootElement :: nat
  rootChildNodes :: "dnode list"
  subComponents :: "(nat \<times> string) list"

subsection \<open>resolveBindingText\<close>

fun resolve_matches :: "(string \<rightharpoonup> string) \<Rightarrow> string list \<Rightarrow> string \<Rightarrow> error + string" where
  "resolve_matches obs [] text = Inr text"
| "resolve_matches obs (m # ms) text =
     (case obs (path_of_match m) of
        None \<Rightarrow> Inl TypeError
      | Some v \<Rightarrow> resolve_matches obs ms (js_replace text m v))"

definition resolveBindingText :: "component \<Rightarrow> string \<Rightarrow> error + string" where
  "resolveBindingText st text =
     (case js_match text of
        None \<Rightarrow> Inl TypeError
      | Some ms \<Rightarrow> resolve_matches (observables st) ms text)"

subsection \<open>processElements\<close>

text \<open>
  The inner loop over the matches of one text node.  The entry of \<open>textBindings\<close> is
  created empty when missing and the record pushed after the subscription; when the
  field is missing the subscription throws and the state is lost, so creation and push
  are written as one update.
\<close>

fun register_matches :: "nat \<Rightarrow> nat \<Rightarrow> string \<Rightarrow> string list \<Rightarrow> component \<Rightarrow> error + component" where
  "register_matches bid i text [] st = Inr st"
| "register_matches bid i text (m # ms) st =
     (let path = path_of_match m in
      case observables st path of
        None \<Rightarrow> Inl TypeError
      | Some _ \<Rightarrow>
          let info = \<lparr>elementBindingId = bid, textNodeIndex = i, bindingPath = path,
                       bindingText = text\<rparr>;
              old = (case textBindings st path of None \<Rightarrow> [] | Some l \<Rightarrow> l)
          in register_matches bid i text ms
               (st\<lparr>subscriptions := (subscriptions st)(path := subscriptions st path @ [TextUpdate path]),
                   textBindings := (textBindings st)(path \<mapsto> old @ [info])\<rparr>))"

text \<open>
  The loop over the text nodes of \<^verbatim>\<open>rootElement\<close>: \<open>i\<close> is the index among the text
  nodes, \<open>bid\<close> the binding id of the element once it has one (\<open>None\<close> is -1).
\<close>

fun scan_text_nodes :: "nat \<Rightarrow> nat list \<Rightarrow> nat \<Rightarrow> nat option \<Rightarrow> component \<Rightarrow> error + component" where
  "scan_text_nodes el [] i bid st = Inr st"
| "scan_text_nodes el (t # ts) i bid st =
     (case js_match (nodeValue st t) of
        None \<Rightarrow> scan_text_nodes el ts (Suc i) bid st
      | Some ms \<Rightarrow>
          let b = (case bid of Some b \<Rightarrow> b | None \<Rightarrow> bindingIdCounter st);
              st1 = (case bid of
                       Some _ \<Rightarrow> st
                     | None \<Rightarrow> st\<lparr>bindingIdCounter := Suc (bindingIdCounter st),
                                  elemId := (elemId st)(el \<mapsto> BindingElement (bindingIdCounter st))\<rparr>)
          in case register_matches b i (nodeValue st1 t) ms st1 of
               Inl e \<Rightarrow> Inl e
             | Inr st2 \<Rightarrow>
                 (case resolveBindingText st2 (nodeValue st2 t) of
                    Inl e \<Rightarrow> Inl e
                  | Inr v \<Rightarrow>
                      scan_text_nodes el ts (Suc i) (Some b)
                        (st2\<lparr>nodeValue := (nodeValue st2)(t := v)\<rparr>)))"

fun text_children :: "dnode list \<Rightarrow> nat list" where
  "text_children [] = []"
| "text_children (TextNode a # ns) = a # text_children ns"
| "text_children (n # ns) = text_children ns"

text \<open>
  \<^verbatim>\<open>processSubComponent\<close> looks the component id up in \<^verbatim>\<open>window\<close>, constructs the
  component and shows it in place of the element.  The registry and the component
  classes are not part of the sources: \<open>window cid\<close> says whether the lookup and the
  construction succeed, and the element is recorded as handed over.
\<close>

definition processSubComponent :: "(string \<Rightarrow> bool) \<Rightarrow> nat \<Rightarrow> string \<Rightarrow> component \<Rightarrow> error + component" where
  "processSubComponent window el cid st =
     (if window cid then Inr (st\<lparr>subComponents := subComponents st @ [(el, cid)]\<rparr>)
      else Inl TypeError)"

text \<open>
  \<open>processElements window el dc kids\<close> is \<^verbatim>\<open>processElements(rootElement)\<close> for the
  element \<open>el\<close> with \<^verbatim>\<open>data-component\<close> attribute \<open>dc\<close> and child nodes \<open>kids\<close>;
  \<open>processChildElements\<close> is its last loop, over the child nodes that are elements.
\<close>

fun processElements :: "(string \<Rightarrow> bool) \<Rightarrow> nat \<Rightarrow> string option \<Rightarrow> dnode list \<Rightarrow> component \<Rightarrow> error + component"
  and processChildElements :: "(string \<Rightarrow> bool) \<Rightarrow> dnode list \<Rightarrow> component \<Rightarrow> error + component" where
  "processElements window el dc kids st =
     (case scan_text_nodes el (text_children kids) 0 None st of
        Inl e \<Rightarrow> Inl e
      | Inr st1 \<Rightarrow>
          (case dc of
             Some cid \<Rightarrow> processSubComponent window el cid st1
           | None \<Rightarrow> processChildElements window kids st1))"
| "processChildElements window [] st = Inr st"
| "processChildElements window (ElemNode a dc kids # ns) st =
     (case processElements window a dc kids st of
        Inl e \<Rightarrow> Inl e
      | Inr st1 \<Rightarrow> processChildElements window ns st1)"
| "processChildElements window (TextNode a # ns) st = processChildElements window ns st"
| "processChildElements window (OtherNode a # ns) st = processChildElements window ns st"

subsection \<open>triggerBindingUpdate\<close>

text \<open>
  \<^verbatim>\<open>rootHtmlElement.querySelector("#BindingElement" + id)\<close>: the first element in
  document order among the descendants of the root (the root itself is not a candidate)
  whose id is the one asked for; the result is its child nodes, or \<open>None\<close> for
  \<^verbatim>\<open>null\<close>.
\<close>

fun find_element :: "(nat \<rightharpoonup> elem_id) \<Rightarrow> elem_id \<Rightarrow> dnode \<Rightarrow> dnode list option"
  and find_elements :: "(nat \<rightharpoonup> elem_id) \<Rightarrow> elem_id \<Rightarrow> dnode list \<Rightarrow> dnode list option" where
  "find_element ids k (TextNode a) = None"
| "find_element ids k (OtherNode a) = None"
| "find_element ids k (ElemNode a dc kids) =
     (if ids a = Some k then Some kids else find_elements ids k kids)"
| "find_elements ids k [] = None"
| "find_elements ids k (n # ns) =
     (case find_element ids k n of
        Some r \<Rightarrow> Some r
      | None \<Rightarrow> find_elements ids k ns)"

definition querySelector :: "component \<Rightarrow> elem_id \<Rightarrow> dnode list option" where
  "querySelector st k = find_elements (elemId st) k (rootChildNodes st)"

text \<open>
  The inner loop of \<^verbatim>\<open>triggerBindingUpdate\<close> over the child nodes of the binding
  element; \<open>k\<close> is \<^verbatim>\<open>textNodeIndex\<close>, which counts the text nodes passed.
\<close>

fun patch_text_nodes :: "TextBindingInfo \<Rightarrow> dnode list \<Rightarrow> nat \<Rightarrow> component \<Rightarrow> error + component" where
  "patch_text_nodes b [] k st = Inr st"
| "patch_text_nodes b (TextNode a # ns) k st =
     (if k = textNodeIndex b then
        (case resolveBindingText st (bindingText b) of
           Inl e \<Rightarrow> Inl e
         | Inr v \<Rightarrow> patch_text_nodes b ns (Suc k) (st\<lparr>nodeValue := (nodeValue st)(a := v)\<rparr>))
      else patch_text_nodes b ns (Suc k) st)"
| "patch_text_nodes b (ElemNode a dc kids # ns) k st = patch_text_nodes b ns k st"
| "patch_text_nodes b (OtherNode a # ns) k st = patch_text_nodes b ns k st"

text \<open>
  The outer loop.  The source declares the counter of the inner loop with the same
  \<^verbatim>\<open>var i\<close> as the outer one: when the inner loop ends \<open>i\<close> is the number of child
  nodes of the binding element, and the outer \<^verbatim>\<open>i++\<close> makes it one more.  The next
  record read is the one at that index, which can be smaller than the current one: the
  loop need not terminate, so it runs on fuel, one unit for each record read, and \<open>None\<close>
  is running out of it.
\<close>

fun update_loop :: "nat \<Rightarrow> TextBindingInfo list \<Rightarrow> nat \<Rightarrow> component \<Rightarrow> (error + component) option" where
  "update_loop 0 bs i st = None"
| "update_loop (Suc fuel) bs i st =
     (if i < length bs then
        (case querySelector st (BindingElement (elementBindingId (bs ! i))) of
           None \<Rightarrow> Some (Inl TypeError)
         | Some kids \<Rightarrow>
            (case patch_text_nodes (bs ! i) kids 0 st of
               Inl e \<Rightarrow> Some (Inl e)
             | Inr st1 \<Rightarrow> update_loop fuel bs (Suc (length kids)) st1))
      else Some (Inr st))"

definition triggerBindingUpdate :: "nat \<Rightarrow> string \<Rightarrow> component \<Rightarrow> (error + component) option" where
  "triggerBindingUpdate fuel path st =
     (case textBindings st path of
        None \<Rightarrow> Some (Inl TypeError)
      | Some bs \<Rightarrow> update_loop fuel bs 0 st)"

subsection \<open>The constructor\<close>

text \<open>
  A template element as \<^verbatim>\<open>document.getElementById\<close> returns it: its attributes in
  order, and the child nodes of the body that \<^verbatim>\<open>DOMParser\<close> builds from its
  \<^verbatim>\<open>innerHTML\<close>, with the text of their text nodes.
\<close>

record template =
  tpl_attributes :: "(string \<times> string) list"
  tpl_content :: "dnode list"
  tpl_values :: "nat \<Rightarrow> string"

text \<open>
  The loop over the attributes of the template.  \<open>this\<close> is the component under
  construction, \<open>parent\<close> is \<^verbatim>\<open>this.parentComponent\<close>, whose observable the callback is
  subscribed to.  The source creates the missing entry in \<^verbatim>\<open>textBindings\<close> and pushes
  to the entry of \<^verbatim>\<open>propertyBindings\<close>; an entry that is not there is \<^verbatim>\<open>undefined\<close>
  and the push throws.
\<close>

fun bind_properties :: "(string \<times> string) list \<Rightarrow> component \<Rightarrow> component option \<Rightarrow> error + (component \<times> component option)" where
  "bind_properties [] this parent = Inr (this, parent)"
| "bind_properties ((attributeName, attributeValue) # rest) this parent =
     (if prefix ''data-property-'' attributeName then
        let path = take (length attributeValue - 4) (drop 2 attributeValue);
            propertyName = drop 14 attributeName;
            this1 = (if textBindings this path = None
                     then this\<lparr>textBindings := (textBindings this)(path \<mapsto> [])\<rparr> else this);
            info = \<lparr>propertyBindingPath = path, bindingProperty = propertyName\<rparr>
        in case parent of
             None \<Rightarrow> Inl TypeError
           | Some par \<Rightarrow>
              (case observables par path of
                 None \<Rightarrow> Inl TypeError
               | Some _ \<Rightarrow>
                  (case propertyBindings this1 path of
                     None \<Rightarrow> Inl TypeError
                   | Some l \<Rightarrow>
                       bind_properties rest
                         (this1\<lparr>propertyBindings := (propertyBindings this1)(path \<mapsto> l @ [info])\<rparr>)
                         (Some (par\<lparr>subscriptions := (subscriptions par)
                            (path := subscriptions par path @ [PropertyUpdate propertyName])\<rparr>))))
      else bind_properties rest this parent)"

text \<open>
  The loop that moves the parsed nodes under the root reads a live list: every
  \<^verbatim>\<open>appendChild\<close> takes the node out of \<^verbatim>\<open>body.childNodes\<close> while \<open>i\<close> advances,
  so the nodes at the even positions are moved and the others stay behind.
\<close>

fun every_other :: "'a list \<Rightarrow> 'a list" where
  "every_other [] = []"
| "every_other [x] = [x]"
| "every_other (x # y # r) = x # every_other r"

text \<open>
  \<open>construct templates window counter root id parent\<close>: \<open>templates\<close> is the document's
  lookup of template elements by id, \<open>counter\<close> the value of the static
  \<^verbatim>\<open>bindingIdCounter\<close>, \<open>root\<close> the element that \<^verbatim>\<open>createElement\<close> returns.  When the
  body of the constructor runs the only observable field of the object is \<^verbatim>\<open>title\<close>,
  with the empty string.
\<close>

definition construct :: "(string \<rightharpoonup> template) \<Rightarrow> (string \<Rightarrow> bool) \<Rightarrow> nat \<Rightarrow> nat \<Rightarrow> string \<Rightarrow> component option \<Rightarrow> error + (component \<times> component option)" where
  "construct templates window counter root ident parent =
     (case templates (''template_'' @ ident) of
        None \<Rightarrow> Inl NonExistingTemplate
      | Some t \<Rightarrow>
          let this0 = \<lparr>textBindings = Map.empty, propertyBindings = Map.empty,
                       observables = [''title'' \<mapsto> []], subscriptions = (\<lambda>_. []),
                       bindingIdCounter = counter, elemId = Map.empty,
                       nodeValue = tpl_values t, rootElement = root, rootChildNodes = [],
                       subComponents = []\<rparr>
          in case bind_properties (tpl_attributes t) this0 parent of
               Inl e \<Rightarrow> Inl e
             | Inr (this1, parent1) \<Rightarrow>
                 let this2 = this1\<lparr>rootChildNodes := every_other (tpl_content t)\<rparr>
                 in case processElements window root None (rootChildNodes this2) this2 of
                      Inl e \<Rightarrow> Inl e
                    | Inr this3 \<Rightarrow> Inr (this3, parent1))"

subsection \<open>Sample components\<close>

text \<open>
  Four templates.  \<open>Hello\<close> is one paragraph reading \<open>Hello {{title}}\<close>; \<open>Twin\<close> is two
  paragraphs reading \<open>{{title}}\<close> with a blank between them; \<open>Boundary\<close> is an element
  marked as the subcomponent \<open>Sub\<close> that holds a text node and a paragraph, both reading
  \<open>{{title}}\<close>; \<open>Child\<close> declares a property binding; \<open>Root\<close> is the bare text
  \<open>Hello {{title}}\<close>, which becomes a text node of the root element itself.
\<close>

definition hello_template :: template where
  "hello_template =
     \<lparr>tpl_attributes = [(''id'', ''template_Hello''), (''data-root-tag'', ''div'')],
      tpl_content = [ElemNode 1 None [TextNode 2]],
      tpl_values = (\<lambda>_. [])(2 := ''Hello {{title}}'')\<rparr>"

definition twin_template :: template where
  "twin_template =
     \<lparr>tpl_attributes = [(''id'', ''template_Twin''), (''data-root-tag'', ''div'')],
      tpl_content = [ElemNode 1 None [TextNode 2], TextNode 5, ElemNode 3 None [TextNode 4]],
      tpl_values = (\<lambda>_. [])(2 := ''{{title}}'', 4 := ''{{title}}'', 5 := '' '')\<rparr>"

definition boundary_kids :: "dnode list" where
  "boundary_kids = [TextNode 2, ElemNode 3 None [TextNode 4]]"

definition boundary_template :: template where
  "boundary_template =
     \<lparr>tpl_attributes = [(''id'', ''template_Boundary''), (''data-root-tag'', ''div'')],
      tpl_content = [ElemNode 1 (Some ''Sub'') boundary_kids],
      tpl_values = (\<lambda>_. [])(2 := ''{{title}}'', 4 := ''{{title}}'')\<rparr>"

definition property_template :: template where
  "property_template =
     \<lparr>tpl_attributes = [(''id'', ''template_Child''), (''data-root-tag'', ''div''),
                        (''data-property-name'', ''{{title}}'')],
      tpl_content = [], tpl_values = (\<lambda>_. [])\<rparr>"

definition root_template :: template where
  "root_template =
     \<lparr>tpl_attributes = [(''id'', ''template_Root''), (''data-root-tag'', ''div'')],
      tpl_content = [TextNode 2],
      tpl_values = (\<lambda>_. [])(2 := ''Hello {{title}}'')\<rparr>"

definition sample_templates :: "string \<rightharpoonup> template" where
  "sample_templates =
     [''template_Hello'' \<mapsto> hello_template, ''template_Twin'' \<mapsto> twin_template,
      ''template_Boundary'' \<mapsto> boundary_template, ''template_Child'' \<mapsto> property_template,
      ''template_Root'' \<mapsto> root_template]"

text \<open>\<^verbatim>\<open>this.title.value = v\<close>, without the notifications.\<close>

definition set_title :: "string \<Rightarrow> component \<Rightarrow> component" where
  "set_title v st = st\<lparr>observables := (observables st)(''title'' \<mapsto> v)\<rparr>"

definition title_info :: "nat \<Rightarrow> string \<Rightarrow> TextBindingInfo" where
  "title_info bid text =
     \<lparr>elementBindingId = bid, textNodeIndex = 0, bindingPath = ''title'', bindingText = text\<rparr>"

text \<open>The component that \<^verbatim>\<open>new Component("Hello")\<close> builds, the title being empty.\<close>

definition hello_built :: component where
  "hello_built =
     \<lparr>textBindings = [''title'' \<mapsto> [title_info 0 ''Hello {{title}}'']],
      propertyBindings = Map.empty, observables = [''title'' \<mapsto> []],
      subscriptions = (\<lambda>_. [])(''title'' := [TextUpdate ''title'']),
      bindingIdCounter = 1, elemId = [1 \<mapsto> BindingElement 0],
      nodeValue = (\<lambda>_. [])(2 := ''Hello ''), rootElement = 0,
      rootChildNodes = [ElemNode 1 None [TextNode 2]], subComponents = []\<rparr>"

text \<open>After the title has become \<open>World\<close> and resolution has run.\<close>

definition hello_world :: component where
  "hello_world = (set_title ''World'' hello_built)\<lparr>nodeValue := (\<lambda>_. [])(2 := ''Hello World'')\<rparr>"

text \<open>
  After the title has become \<open>World\<close> and the paragraph has been taken out of the
  document.
\<close>

definition hello_stale :: component where
  "hello_stale = (set_title ''World'' hello_built)\<lparr>rootChildNodes := []\<rparr>"

text \<open>The component that \<^verbatim>\<open>new Component("Root")\<close> builds: the root is the binding element.\<close>

definition root_built :: component where
  "root_built =
     \<lparr>textBindings = [''title'' \<mapsto> [title_info 0 ''Hello {{title}}'']],
      propertyBindings = Map.empty, observables = [''title'' \<mapsto> []],
      subscriptions = (\<lambda>_. [])(''title'' := [TextUpdate ''title'']),
      bindingIdCounter = 1, elemId = [0 \<mapsto> BindingElement 0],
      nodeValue = (\<lambda>_. [])(2 := ''Hello ''), rootElement = 0,
      rootChildNodes = [TextNode 2], subComponents = []\<rparr>"

text \<open>The component that \<^verbatim>\<open>new Component("Twin")\<close> builds.\<close>

definition twin_built :: component where
  "twin_built =
     \<lparr>textBindings = [''title'' \<mapsto> [title_info 0 ''{{title}}'', title_info 1 ''{{title}}'']],
      propertyBindings = Map.empty, observables = [''title'' \<mapsto> []],
      subscriptions = (\<lambda>_. [])(''title'' := [TextUpdate ''title'', TextUpdate ''title'']),
      bindingIdCounter = 2, elemId = [1 \<mapsto> BindingElement 0, 3 \<mapsto> BindingElement 1],
      nodeValue = (\<lambda>_. [])(2 := [], 4 := [], 5 := '' ''), rootElement = 0,
      rootChildNodes = [ElemNode 1 None [TextNode 2], ElemNode 3 None [TextNode 4]],
      subComponents = []\<rparr>"

text \<open>What one call of resolution leaves of it once the title is \<open>World\<close>.\<close>

definition twin_after_update :: component where
  "twin_after_update =
     (set_title ''World'' twin_built)
       \<lparr>nodeValue := (\<lambda>_. [])(2 := ''World'', 4 := [], 5 := '' '')\<rparr>"



text \<open>
  A component with two more observable fields, \<open>a\<close> rendering as 1 and \<open>b\<close> as 2, and one
  paragraph whose text holds both placeholders.
\<close>

definition sample_component :: "dnode list \<Rightarrow> (nat \<Rightarrow> string) \<Rightarrow> component" where
  "sample_component kids vals =
     \<lparr>textBindings = Map.empty, propertyBindings = Map.empty,
      observables = [''a'' \<mapsto> ''1'', ''b'' \<mapsto> ''2''], subscriptions = (\<lambda>_. []),
      bindingIdCounter = 0, elemId = Map.empty, nodeValue = vals, rootElement = 0,
      rootChildNodes = kids, subComponents = []\<rparr>"

definition set_a :: "string \<Rightarrow> component \<Rightarrow> component" where
  "set_a v st = st\<lparr>observables := (observables st)(''a'' \<mapsto> v)\<rparr>"

definition two_token_kids :: "dnode list" where
  "two_token_kids = [ElemNode 1 None [TextNode 2]]"

definition two_token_vals :: "nat \<Rightarrow> string" where
  "two_token_vals = (\<lambda>_. [])(2 := ''{{a}} and {{b}}'')"

definition two_token_info :: "string \<Rightarrow> TextBindingInfo" where
  "two_token_info p =
     \<lparr>elementBindingId = 0, textNodeIndex = 0, bindingPath = p,
      bindingText = ''{{a}} and {{b}}''\<rparr>"

definition two_token_discovered :: component where
  "two_token_discovered =
     \<lparr>textBindings = [''a'' \<mapsto> [two_token_info ''a''], ''b'' \<mapsto> [two_token_info ''b'']],
      propertyBindings = Map.empty,
      observables = [''a'' \<mapsto> ''1'', ''b'' \<mapsto> ''2''],
      subscriptions = (\<lambda>_. [])(''a'' := [TextUpdate ''a''], ''b'' := [TextUpdate ''b'']),
      bindingIdCounter = 1, elemId = [1 \<mapsto> BindingElement 0],
      nodeValue = (\<lambda>_. [])(2 := ''1 and 2''), rootElement = 0,
      rootChildNodes = two_token_kids, subComponents = []\<rparr>"

definition two_token_patched :: component where
  "two_token_patched =
     (set_a ''7'' two_token_discovered)\<lparr>nodeValue := (\<lambda>_. [])(2 := ''7 and 2'')\<rparr>"

text \<open>
  A component on which resolution for \<open>title\<close> does not end: five records, the binding
  elements of the first three with three child nodes, those of the last two with one.
\<close>

definition looping_bindings :: "TextBindingInfo list" where
  "looping_bindings =
     [title_info 0 ''{{title}}{{title}}'', title_info 0 ''{{title}}{{title}}'',
      title_info 1 ''{{title}}'', title_info 2 ''{{title}}'', title_info 3 ''{{title}}'']"

definition looping_component :: "(nat \<Rightarrow> string) \<Rightarrow> component" where
  "looping_component vals =
     \<lparr>textBindings = [''title'' \<mapsto> looping_bindings],
      propertyBindings = Map.empty, observables = [''title'' \<mapsto> ''x''],
      subscriptions = (\<lambda>_. [])(''title'' := replicate 5 (TextUpdate ''title'')),
      bindingIdCounter = 4,
      elemId = [1 \<mapsto> BindingElement 0, 2 \<mapsto> BindingElement 1, 3 \<mapsto> BindingElement 2,
                4 \<mapsto> BindingElement 3],
      nodeValue = vals, rootElement = 0,
      rootChildNodes =
        [ElemNode 1 None [TextNode 11, OtherNode 12, OtherNode 13],
         ElemNode 2 None [TextNode 21, OtherNode 22, OtherNode 23],
         ElemNode 3 None [TextNode 31], ElemNode 4 None [TextNode 41]],
      subComponents = []\<rparr>"


text \<open>
  A run of the resolution loop changes only \<open>nodeValue\<close>, and what it writes does not
  depend on what the text nodes held: the run amounts to a list of writes.
\<close>

fun apply_writes :: "(nat \<times> string) list \<Rightarrow> (nat \<Rightarrow> string) \<Rightarrow> (nat \<Rightarrow> string)" where
  "apply_writes [] nv = nv"
| "apply_writes ((a, v) # ws) nv = apply_writes ws (nv(a := v))"

section \<open>Repeater\<close>

text \<open>
  The repeater extends a later \<^verbatim>\<open>Component\<close> than the one above: a custom element with
  \<^verbatim>\<open>createdCallback\<close>, \<^verbatim>\<open>attachedCallback\<close>, a data context and a \<^verbatim>\<open>DataBinder\<close>.
  That base class and the \<^verbatim>\<open>DataBinder\<close> are not in the sources.
\<close>

subsection \<open>The DataBinder\<close>

text \<open>
  The item data context \<^verbatim>\<open>new Observable(arg.item)\<close> is an object of its own for each
  item: its identity and the array element it wraps.
\<close>

type_synonym 'a scope = "nat \<times> 'a"

text \<open>
  Modelled from the spec: the \<^verbatim>\<open>DataBinder\<close> (\<^verbatim>\<open>this.dataBinder\<close>) and its record type
  \<^verbatim>\<open>NodeDataBindingInformation\<close> are missing from the sources.  The spec gives the
  DataBinder four operations, \<^verbatim>\<open>processBindings(node, scope) -> bindingRecords\<close>,
  \<^verbatim>\<open>resolveBindings(records)\<close>, \<^verbatim>\<open>resolveAllBindings()\<close> and
  \<^verbatim>\<open>releaseBindings(records)\<close>; discovery registers one record for each placeholder
  and subscribes it to the change event of its path, releasing unsubscribes every
  record given ("each record unsubscribes only itself"), and a change notification
  patches the text of the records that are subscribed.  A record names the clone node it
  was discovered under, its path and its scope.  The state of the DataBinder is the list of
  subscribed records and the log of the text patches it has made.
\<close>

record 'a binding =
  b_node :: nat
  b_path :: string
  b_scope :: "'a scope"

record 'a data_binder =
  live :: "'a binding list"
  patches :: "'a binding list"

text \<open>
  Modelled from the spec: \<^verbatim>\<open>processBindings\<close>; \<open>paths\<close> are the placeholders found under
  the node.
\<close>

definition processBindings :: "string list \<Rightarrow> nat \<Rightarrow> 'a scope \<Rightarrow> 'a data_binder \<Rightarrow> 'a binding list \<times> 'a data_binder" where
  "processBindings paths node sc bd =
     (let recs = map (\<lambda>p. \<lparr>b_node = node, b_path = p, b_scope = sc\<rparr>) paths
      in (recs, bd\<lparr>live := live bd @ recs\<rparr>))"

text \<open>Modelled from the spec: \<^verbatim>\<open>resolveBindings\<close> writes the text of the records given.\<close>

definition resolveBindings :: "'a binding list \<Rightarrow> 'a data_binder \<Rightarrow> 'a data_binder" where
  "resolveBindings recs bd = bd\<lparr>patches := patches bd @ recs\<rparr>"

text \<open>Modelled from the spec: \<^verbatim>\<open>resolveAllBindings\<close>, the "resolve all pending" pass.\<close>

definition resolveAllBindings :: "'a data_binder \<Rightarrow> 'a data_binder" where
  "resolveAllBindings bd = bd\<lparr>patches := patches bd @ live bd\<rparr>"

text \<open>
  Modelled from the spec: \<^verbatim>\<open>releaseBindings\<close>.  The argument is \<^verbatim>\<open>undefined\<close> (\<open>None\<close>)
  when the repeater reads past the end of \<^verbatim>\<open>itemNodeBindings\<close>; iterating it throws.
\<close>

definition releaseBindings :: "'a binding list option \<Rightarrow> 'a data_binder \<Rightarrow> error + 'a data_binder" where
  "releaseBindings recs bd =
     (case recs of
        None \<Rightarrow> Inl TypeError
      | Some rs \<Rightarrow> Inr (bd\<lparr>live := filter (\<lambda>r. r \<notin> set rs) (live bd)\<rparr>))"

text \<open>
  Modelled from the spec: the change of the observable at \<open>path\<close> in the scope \<open>sc\<close>
  reaches the records subscribed to it, and each patches its text.
\<close>

definition valueChanged :: "'a scope \<Rightarrow> string \<Rightarrow> 'a data_binder \<Rightarrow> 'a data_binder" where
  "valueChanged sc path bd =
     bd\<lparr>patches := patches bd @ filter (\<lambda>r. b_scope r = sc \<and> b_path r = path) (live bd)\<rparr>"

subsection \<open>The repeater and the child list it renders into\<close>

text \<open>
  DOM nodes are identities.  \<open>siblings\<close> is \<^verbatim>\<open>this.parentNode.childNodes\<close>, the list the
  repeater's own element \<open>self\<close> and the nodes of its items live in; a node that is not in
  it has no parent.  \<open>template\<close> is \<^verbatim>\<open>this.template\<close>: \<open>None\<close> for \<^verbatim>\<open>null\<close>, else the
  child nodes of \<^verbatim>\<open>template.content\<close>, each given by the placeholders under it.
  \<open>nextNode\<close> and \<open>nextScope\<close> give the objects created next their identity.
  \<open>nodePaths\<close> is what a cloned node copies from the template, \<open>nodeContext\<close> what
  \<^verbatim>\<open>applyMyDataContext\<close> sets.  The calls \<^verbatim>\<open>setParentComponent\<close> and
  \<^verbatim>\<open>applyRepeaterEvents\<close> touch none of these fields and are left out.

  The elements below the repeater's own element are \<open>hostChildren\<close>: each with its tag
  name, the content it has when it is a template, and its child elements.
  \<open>hostAttributes\<close> are the attributes of the repeater's element, \<open>dataContext\<close> is
  \<^verbatim>\<open>this.dataContext.value\<close>.  \<open>parentMembers\<close> is \<^verbatim>\<open>this.parentComponent\<close>: \<open>None\<close>
  when there is none, else the member names that are truthy on it.
  \<open>contextSubscriptions\<close> and \<open>arraySubscriptions\<close> count the handlers the repeater has
  subscribed to the data context and to the array's two events.
\<close>

datatype hnode = HNode string "string list list" "hnode list"

datatype 'a context_value = ObservableArray "'a list" | OtherObject | NullValue

record 'a repeater =
  template :: "string list list option"
  itemNodes :: "nat list list"
  itemNodeBindings :: "'a binding list list"
  siblings :: "nat list"
  self :: nat
  nextNode :: nat
  nextScope :: nat
  nodePaths :: "nat \<Rightarrow> string list"
  nodeContext :: "nat \<rightharpoonup> 'a scope"
  dataBinder :: "'a data_binder"
  hostChildren :: "hnode list"
  hostAttributes :: "(string \<times> string) list"
  dataContext :: "'a context_value"
  parentMembers :: "(string \<Rightarrow> bool) option"
  itemEventCallbacks :: "string \<rightharpoonup> string"
  contextSubscriptions :: nat
  arraySubscriptions :: nat

text \<open>\<^verbatim>\<open>node.nextSibling\<close> in the child list; \<open>None\<close> is \<^verbatim>\<open>null\<close>.\<close>

fun nextSibling :: "nat list \<Rightarrow> nat \<Rightarrow> nat option" where
  "nextSibling [] n = None"
| "nextSibling [x] n = None"
| "nextSibling (x # y # r) n = (if x = n then Some y else nextSibling (y # r) n)"

text \<open>
  \<^verbatim>\<open>parentNode.insertBefore(fragment, refNode)\<close>: the nodes of the fragment go before
  \<open>refNode\<close>, at the end when it is \<^verbatim>\<open>null\<close> or \<^verbatim>\<open>undefined\<close>; a reference node that
  is not a child is a \<open>NotFoundError\<close>.
\<close>

fun insert_before :: "nat list \<Rightarrow> nat list \<Rightarrow> nat \<Rightarrow> nat list option" where
  "insert_before [] new r = None"
| "insert_before (x # xs) new r =
     (if x = r then Some (new @ x # xs) else map_option (Cons x) (insert_before xs new r))"

definition insertBefore :: "nat list \<Rightarrow> nat list \<Rightarrow> nat option \<Rightarrow> error + nat list" where
  "insertBefore sibs new refNode =
     (case refNode of
        None \<Rightarrow> Inr (sibs @ new)
      | Some r \<Rightarrow> (case insert_before sibs new r of None \<Rightarrow> Inl NotFoundError | Some l \<Rightarrow> Inr l))"

text \<open>
  \<^verbatim>\<open>node.parentNode.removeChild(node)\<close>: a node that is not in the list has no parent and
  the call on \<^verbatim>\<open>null\<close> throws.
\<close>

definition removeChild :: "nat list \<Rightarrow> nat \<Rightarrow> error + nat list" where
  "removeChild sibs n = (if n \<in> set sibs then Inr (remove1 n sibs) else Inl TypeError)"

fun remove_nodes :: "nat list \<Rightarrow> nat list \<Rightarrow> error + nat list" where
  "remove_nodes [] sibs = Inr sibs"
| "remove_nodes (n # ns) sibs =
     (case removeChild sibs n of Inl e \<Rightarrow> Inl e | Inr sibs1 \<Rightarrow> remove_nodes ns sibs1)"

text \<open>
  \<^verbatim>\<open>array.splice(position, 0, x)\<close> and \<^verbatim>\<open>array.splice(position, 1)\<close> for a position that
  is not negative: a start past the end is clamped to the length.
\<close>

definition splice_in :: "nat \<Rightarrow> 'x \<Rightarrow> 'x list \<Rightarrow> 'x list" where
  "splice_in pos x xs = take pos xs @ x # drop pos xs"

definition splice_out :: "nat \<Rightarrow> 'x list \<Rightarrow> 'x list" where
  "splice_out pos xs = take pos xs @ drop (Suc pos) xs"

text \<open>
  The loop that runs \<^verbatim>\<open>processBindings\<close> on each node of the clone and collects the
  records.
\<close>

fun bind_nodes :: "(nat \<Rightarrow> string list) \<Rightarrow> nat list \<Rightarrow> 'a scope \<Rightarrow> 'a data_binder \<Rightarrow> 'a binding list \<times> 'a data_binder" where
  "bind_nodes np [] sc bd = ([], bd)"
| "bind_nodes np (n # ns) sc bd =
     (let (recs, bd1) = processBindings (np n) n sc bd;
          (more, bd2) = bind_nodes np ns sc bd1
      in (recs @ more, bd2))"

text \<open>
  Modelled from the spec: \<^verbatim>\<open>applyMyDataContext\<close>, a method of the repeater's base class
  that is missing from the sources, gives each root node of the clone the item's data
  context.  The rest is \<^verbatim>\<open>document.importNode(this.template.content, true)\<close> and the
  loop over the clone's child nodes: fresh nodes, one for each child of the template
  content, with the placeholders copied from it.
\<close>

definition clone_template :: "string list list \<Rightarrow> 'a scope \<Rightarrow> 'a repeater \<Rightarrow> nat list \<times> 'a repeater" where
  "clone_template content sc s =
     (let first = nextNode s; count = length content;
          paths = nodePaths s; contexts = nodeContext s
      in ([first ..< first + count],
          s\<lparr>nextNode := first + count,
            nodePaths := (\<lambda>n. if first \<le> n \<and> n < first + count
                               then content ! (n - first) else paths n),
            nodeContext := (\<lambda>n. if first \<le> n \<and> n < first + count
                                 then Some sc else contexts n)\<rparr>))"

subsection \<open>itemAdded and itemRemoved\<close>

text \<open>
  The reference node of \<^verbatim>\<open>itemAdded\<close>, read before the new entry is spliced in: the
  next sibling of the repeater's element for the first item, the first node of the entry
  at the position for a position below the number of entries (\<^verbatim>\<open>undefined\<close>, which
  \<^verbatim>\<open>insertBefore\<close> takes as \<^verbatim>\<open>null\<close>, when that entry has no node), else the next
  sibling of the last node of the last entry, whose read throws when that entry has no
  node.
\<close>

definition reference_node :: "nat \<Rightarrow> 'a repeater \<Rightarrow> error + nat option" where
  "reference_node position s =
     (if itemNodes s = [] then Inr (nextSibling (siblings s) (self s))
      else if position < length (itemNodes s) then
        Inr (case itemNodes s ! position of [] \<Rightarrow> None | n # _ \<Rightarrow> Some n)
      else
        (case last (itemNodes s) of
           [] \<Rightarrow> Inl TypeError
         | n # ns \<Rightarrow> Inr (nextSibling (siblings s) (last (n # ns)))))"

definition itemAdded :: "'a \<Rightarrow> nat \<Rightarrow> 'a repeater \<Rightarrow> error + 'a repeater" where
  "itemAdded item position s =
     (case template s of
        None \<Rightarrow> Inl TypeError
      | Some content \<Rightarrow>
          let sc = (nextScope s, item);
              (cloneNodes, s1) = clone_template content sc (s\<lparr>nextScope := Suc (nextScope s)\<rparr>)
          in case reference_node position s1 of
               Inl e \<Rightarrow> Inl e
             | Inr refNode \<Rightarrow>
                 let s2 = s1\<lparr>itemNodes := splice_in position cloneNodes (itemNodes s1)\<rparr>
                 in case insertBefore (siblings s2) cloneNodes refNode of
                      Inl e \<Rightarrow> Inl e
                    | Inr sibs \<Rightarrow>
                        let (itemBindings, bd) =
                              bind_nodes (nodePaths s2) cloneNodes sc (dataBinder s2)
                        in Inr (s2\<lparr>siblings := sibs,
                                   itemNodeBindings :=
                                     splice_in position itemBindings (itemNodeBindings s2),
                                   dataBinder := resolveBindings itemBindings bd\<rparr>))"

definition itemRemoved :: "nat \<Rightarrow> 'a repeater \<Rightarrow> error + 'a repeater" where
  "itemRemoved position s =
     (let itemBindings = (if position < length (itemNodeBindings s)
                          then Some (itemNodeBindings s ! position) else None)
      in case releaseBindings itemBindings (dataBinder s) of
           Inl e \<Rightarrow> Inl e
         | Inr bd \<Rightarrow>
             let s1 = s\<lparr>dataBinder := bd,
                       itemNodeBindings := splice_out position (itemNodeBindings s)\<rparr>
             in if position < length (itemNodes s1) then
                  (case remove_nodes (itemNodes s1 ! position) (siblings s1) of
                     Inl e \<Rightarrow> Inl e
                   | Inr sibs \<Rightarrow>
                       Inr (s1\<lparr>siblings := sibs,
                                itemNodes := splice_out position (itemNodes s1)\<rparr>))
                else Inl TypeError)"

subsection \<open>attachedCallback, dataContextUpdated and populateAllItems\<close>

text \<open>
  \<^verbatim>\<open>this.querySelector("template")\<close>: the first element in document order among the
  descendants of the repeater's element whose tag is \<^verbatim>\<open>template\<close>; the result is its
  content.
\<close>

fun find_template :: "hnode \<Rightarrow> string list list option"
  and find_templates :: "hnode list \<Rightarrow> string list list option" where
  "find_template (HNode tag content kids) =
     (if tag = ''template'' then Some content else find_templates kids)"
| "find_templates [] = None"
| "find_templates (h # hs) =
     (case find_template h of Some c \<Rightarrow> Some c | None \<Rightarrow> find_templates hs)"

fun populate_loop :: "'a list \<Rightarrow> nat option \<Rightarrow> 'a repeater \<Rightarrow> error + 'a repeater" where
  "populate_loop [] refNode s = Inr s"
| "populate_loop (x # xs) refNode s =
     (case template s of
        None \<Rightarrow> Inl TypeError
      | Some content \<Rightarrow>
          let sc = (nextScope s, x);
              (cloneNodes, s1) = clone_template content sc (s\<lparr>nextScope := Suc (nextScope s)\<rparr>);
              s2 = s1\<lparr>itemNodes := itemNodes s1 @ [cloneNodes]\<rparr>
          in case insertBefore (siblings s2) cloneNodes refNode of
               Inl e \<Rightarrow> Inl e
             | Inr sibs \<Rightarrow>
                 (case cloneNodes of
                    [] \<Rightarrow> Inl TypeError
                  | _ # _ \<Rightarrow>
                      let (itemBindings, bd) =
                            bind_nodes (nodePaths s2) cloneNodes sc (dataBinder s2)
                      in populate_loop xs (nextSibling sibs (last cloneNodes))
                           (s2\<lparr>siblings := sibs,
                               itemNodeBindings := itemNodeBindings s2 @ [itemBindings],
                               dataBinder := bd\<rparr>)))"

text \<open>
  When the value is an object without \<^verbatim>\<open>size\<close> the loop does not run; reading
  \<^verbatim>\<open>size\<close> of \<^verbatim>\<open>null\<close> throws.
\<close>

definition populateAllItems :: "'a repeater \<Rightarrow> error + 'a repeater" where
  "populateAllItems s =
     (case (case dataContext s of
              ObservableArray arr \<Rightarrow> populate_loop arr (nextSibling (siblings s) (self s)) s
            | OtherObject \<Rightarrow> Inr s
            | NullValue \<Rightarrow> Inl TypeError) of
        Inl e \<Rightarrow> Inl e
      | Inr s1 \<Rightarrow> Inr (s1\<lparr>dataBinder := resolveAllBindings (dataBinder s1)\<rparr>))"

definition dataContextUpdated :: "'a repeater \<Rightarrow> error + 'a repeater" where
  "dataContextUpdated s =
     (case remove_nodes (concat (itemNodes s)) (siblings s) of
        Inl e \<Rightarrow> Inl e
      | Inr sibs \<Rightarrow>
          (case populateAllItems (s\<lparr>siblings := sibs, itemNodes := [], itemNodeBindings := []\<rparr>) of
             Inl e \<Rightarrow> Inl e
           | Inr s1 \<Rightarrow>
              (case dataContext s1 of
                 ObservableArray arr \<Rightarrow> Inr (s1\<lparr>arraySubscriptions := Suc (arraySubscriptions s1)\<rparr>)
               | OtherObject \<Rightarrow> Inl TypeError
               | NullValue \<Rightarrow> Inl TypeError)))"

text \<open>
  The loop over the attributes of the repeater's element.  The branch that logs the
  missing callback reads \<^verbatim>\<open>this.parentComponent.tagName\<close>, which throws when there is no
  parent component.
\<close>

fun bind_item_events :: "(string \<times> string) list \<Rightarrow> 'a repeater \<Rightarrow> error + 'a repeater" where
  "bind_item_events [] s = Inr s"
| "bind_item_events ((attributeName, attributeValue) # rest) s =
     (if prefix ''data-event-item-'' attributeName then
        (case parentMembers s of
           None \<Rightarrow> Inl TypeError
         | Some members \<Rightarrow>
             if members attributeValue then
               bind_item_events rest
                 (s\<lparr>itemEventCallbacks :=
                      (itemEventCallbacks s)(drop 16 attributeName \<mapsto> attributeValue)\<rparr>)
             else bind_item_events rest s)
      else bind_item_events rest s)"

text \<open>
  \<open>base\<close> is \<^verbatim>\<open>super.attachedCallback()\<close>, of a base class that is not in the sources.
\<close>

definition attachedCallback :: "('a repeater \<Rightarrow> 'a repeater) \<Rightarrow> 'a repeater \<Rightarrow> error + 'a repeater" where
  "attachedCallback base s =
     (let s0 = base s in
      case find_templates (hostChildren s0) of
        None \<Rightarrow> Inl TemplateUndefined
      | Some content \<Rightarrow>
          let s1 = s0\<lparr>template := Some content\<rparr> in
          (case dataContext s1 of
             ObservableArray arr \<Rightarrow>
               (case bind_item_events (hostAttributes s1) s1 of
                  Inl e \<Rightarrow> Inl e
                | Inr s2 \<Rightarrow>
                    dataContextUpdated (s2\<lparr>contextSubscriptions := Suc (contextSubscriptions s2)\<rparr>))
           | OtherObject \<Rightarrow> Inl InvalidDataContext
           | NullValue \<Rightarrow> Inl InvalidDataContext))"

subsection \<open>The backing array and its events\<close>







subsection \<open>A sample repeater\<close>

text \<open>
  The repeater's element is node 1, between the nodes 0 and 2 of its parent; its template
  has two child nodes, the first with the placeholder \<open>name\<close>.
\<close>

definition fresh_repeater :: "hnode list \<Rightarrow> string context_value \<Rightarrow> string repeater" where
  "fresh_repeater kids ctx =
     \<lparr>template = None, itemNodes = [], itemNodeBindings = [], siblings = [0, 1, 2],
      self = 1, nextNode = 10, nextScope = 0, nodePaths = (\<lambda>_. []),
      nodeContext = Map.empty, dataBinder = \<lparr>live = [], patches = []\<rparr>,
      hostChildren = kids, hostAttributes = [], dataContext = ctx, parentMembers = None,
      itemEventCallbacks = Map.empty, contextSubscriptions = 0, arraySubscriptions = 0\<rparr>"

definition sample_template :: hnode where
  "sample_template = HNode ''template'' [[''name''], []] []"

definition sample_binding :: "string binding" where
  "sample_binding = \<lparr>b_node = 10, b_path = ''name'', b_scope = (0, ''x'')\<rparr>"

text \<open>The sample repeater attached with the array \<open>[x]\<close>.\<close>

definition sample_populated :: "string repeater" where
  "sample_populated =
     \<lparr>template = Some [[''name''], []], itemNodes = [[10, 11]],
      itemNodeBindings = [[sample_binding]], siblings = [0, 1, 10, 11, 2],
      self = 1, nextNode = 12, nextScope = 1,
      nodePaths = (\<lambda>n. if 10 \<le> n \<and> n < 12 then [[''name''], []] ! (n - 10) else []),
      nodeContext = (\<lambda>n. if 10 \<le> n \<and> n < 12 then Some (0, ''x'') else None),
      dataBinder = \<lparr>live = [sample_binding], patches = [sample_binding]\<rparr>,
      hostChildren = [sample_template], hostAttributes = [],
      dataContext = ObservableArray [''x''], parentMembers = None,
      itemEventCallbacks = Map.empty, contextSubscriptions = 1, arraySubscriptions = 1\<rparr>"

text \<open>The sample repeater attached with the empty array.\<close>

definition sample_empty :: "string repeater" where
  "sample_empty =
     (fresh_repeater [sample_template] (ObservableArray []))
       \<lparr>template := Some [[''name''], []], contextSubscriptions := 1, arraySubscriptions := 1\<rparr>"

fun is_observable_array :: "'a context_value \<Rightarrow> bool" where
  "is_observable_array (ObservableArray arr) = True"
| "is_observable_array v = False"

fun is_template :: "hnode \<Rightarrow> bool" where
  "is_template (HNode tag content kids) = (tag = ''template'')"

subsection \<open>Index alignment\<close>

text \<open>
  An entry belongs to the array element \<open>x\<close> when each of its nodes has a data context
  that wraps \<open>x\<close>, and each of its binding records has a scope that wraps \<open>x\<close> and sits
  under one of its nodes.  The nodes are older than the next node to be created.
\<close>

definition entry_ok :: "(nat \<rightharpoonup> 'a scope) \<Rightarrow> nat \<Rightarrow> 'a \<times> nat list \<times> 'a binding list \<Rightarrow> bool" where
  "entry_ok ctx bound e =
     (case e of (x, ns, bs) \<Rightarrow>
        list_all (\<lambda>n. map_option snd (ctx n) = Some x \<and> n < bound) ns \<and>
        list_all (\<lambda>b. snd (b_scope b) = x \<and> b_node b \<in> set ns) bs)"

definition aligned :: "'a list \<Rightarrow> 'a repeater \<Rightarrow> bool" where
  "aligned arr s =
     (length (itemNodes s) = length arr \<and> length (itemNodeBindings s) = length arr \<and>
      list_all (entry_ok (nodeContext s) (nextNode s))
        (zip arr (zip (itemNodes s) (itemNodeBindings s))))"

text \<open>
  The document is as the repeater left it: the template has content, every entry has
  nodes, the nodes of the entries are distinct children of the parent, and the child
  list holds no node twice and none that is yet to be created.
\<close>

definition well_formed :: "'a repeater \<Rightarrow> bool" where
  "well_formed s =
     ((case template s of None \<Rightarrow> False | Some content \<Rightarrow> content \<noteq> []) \<and>
      list_all (\<lambda>ns. ns \<noteq> []) (itemNodes s) \<and>
      distinct (siblings s) \<and>
      list_all (\<lambda>n. n < nextNode s) (siblings s) \<and>
      distinct (concat (itemNodes s)) \<and>
      list_all (\<lambda>n. n \<in> set (siblings s)) (concat (itemNodes s)))"

text \<open>The nodes that the next clone of the template is made of.\<close>

definition new_nodes :: "'a repeater \<Rightarrow> nat list" where
  "new_nodes s =
     (case template s of
        None \<Rightarrow> []
      | Some content \<Rightarrow> [nextNode s ..< nextNode s + length content])"

section \<open>Properties of show and hide\<close>

lemma show_sets_showing: "show ops body s r = Inr s' \<Longrightarrow> isShowing s'"
  by (auto simp: show_def Let_def split: if_splits option.splits sum.splits)

lemma hide_clears_showing: "hide ops s = Inr s' \<Longrightarrow> \<not> isShowing s'"
  by (auto simp: hide_def split: if_splits option.splits sum.splits)

text \<open>
  C10.  \<^verbatim>\<open>show\<close> on a component that is showing and \<^verbatim>\<open>hide\<close> on one that is not
  return at once: the document, \<^verbatim>\<open>rootHtmlElement\<close> and the flag (the whole state) are
  what they were.  So a second \<^verbatim>\<open>show\<close> after one that returned, and a second
  \<^verbatim>\<open>hide\<close> after one that returned, change nothing: each is idempotent.  This holds
  whatever the DOM's own operations do.
\<close>

theorem show_hide_noop:
  "(isShowing s \<longrightarrow> show ops body s r = Inr s) \<and>
   (\<not> isShowing t \<longrightarrow> hide ops t = Inr t) \<and>
   (show ops body t r = Inr s \<longrightarrow> show ops body s r' = Inr s) \<and>
   (hide ops s = Inr t \<longrightarrow> hide ops t = Inr t)"
proof -
  have a: "isShowing s \<longrightarrow> show ops body s r = Inr s"
    by (simp add: show_def)
  have b: "\<not> isShowing t \<longrightarrow> hide ops t = Inr t"
    by (simp add: hide_def)
  have c: "show ops body t r = Inr s \<longrightarrow> show ops body s r' = Inr s"
    using show_sets_showing [of ops body t r s] by (auto simp: show_def)
  have d: "hide ops s = Inr t \<longrightarrow> hide ops t = Inr t"
    using hide_clears_showing [of ops s t] by (auto simp: hide_def)
  from a b c d show ?thesis by blast
qed

lemma show_view_hidden: "show simple_ops 0 view_hidden None = Inr view_shown"
  by (simp add: show_def view_hidden_def view_shown_def simple_ops_def sd_appendChild_def
      sd_detach_def sd_set_children_def sd_children_def)

lemma hide_view_shown: "hide simple_ops view_shown = Inr view_hidden"
  by (simp add: hide_def view_hidden_def view_shown_def simple_ops_def sd_removeChild_def
      sd_parentNode_def sd_detach_def sd_children_def)

theorem show_hide_noop_witness:
  "isShowing view_shown \<and> \<not> isShowing view_hidden \<and>
   show simple_ops 0 view_hidden None = Inr view_shown \<and>
   hide simple_ops view_shown = Inr view_hidden \<and>
   show simple_ops 0 view_shown None = Inr view_shown \<and>
   hide simple_ops view_hidden = Inr view_hidden"
  using show_hide_noop [of view_shown simple_ops 0 None view_hidden None]
    show_view_hidden hide_view_shown
  by (simp add: view_shown_def view_hidden_def)

section \<open>Properties of the binding engine\<close>

lemmas string_eval =
  match_here_def is_path_char_def js_match_def path_of_match_def js_replace_def
  resolveBindingText_def less_eq_char_def Let_def

subsection \<open>Resolution writes text and nothing else\<close>

lemma apply_writes_append:
  "apply_writes (ws @ ws') nv = apply_writes ws' (apply_writes ws nv)"
  by (induction ws arbitrary: nv) auto

lemma apply_writes_last:
  "apply_writes ws nv a = (case map_of (rev ws) a of None \<Rightarrow> nv a | Some v \<Rightarrow> v)"
proof (induction ws arbitrary: nv rule: rev_induct)
  case Nil
  then show ?case by simp
next
  case (snoc w ws)
  obtain b v where w: "w = (b, v)" by (cases w)
  show ?case using snoc by (simp add: w apply_writes_append)
qed

lemma apply_writes_idem: "apply_writes ws (apply_writes ws nv) = apply_writes ws nv"
  by (rule ext) (simp add: apply_writes_last split: option.splits)

lemma resolveBindingText_nodeValue [simp]:
  "resolveBindingText (st\<lparr>nodeValue := nv\<rparr>) t = resolveBindingText st t"
  by (simp add: resolveBindingText_def split: option.splits)

lemma querySelector_nodeValue [simp]:
  "querySelector (st\<lparr>nodeValue := nv\<rparr>) k = querySelector st k"
  by (simp add: querySelector_def)

lemma patch_uniform:
  "patch_text_nodes b kids k st = Inr st' \<Longrightarrow>
   \<exists>ws. \<forall>nv. patch_text_nodes b kids k (st\<lparr>nodeValue := nv\<rparr>)
            = Inr (st\<lparr>nodeValue := apply_writes ws nv\<rparr>)"
proof (induction b kids k st arbitrary: st' rule: patch_text_nodes.induct)
  case (1 b k st)
  have "\<forall>nv. patch_text_nodes b [] k (st\<lparr>nodeValue := nv\<rparr>)
          = Inr (st\<lparr>nodeValue := apply_writes [] nv\<rparr>)"
    by simp
  then show ?case by blast
next
  case (2 b a ns k st)
  show ?case
  proof (cases "k = textNodeIndex b")
    case True
    with "2.prems" obtain v where v: "resolveBindingText st (bindingText b) = Inr v"
      and run: "patch_text_nodes b ns (Suc k) (st\<lparr>nodeValue := (nodeValue st)(a := v)\<rparr>) = Inr st'"
      by (auto split: sum.splits)
    from "2.IH"(1) [OF True v run] obtain ws where
      ws: "\<forall>nv. patch_text_nodes b ns (Suc k) (st\<lparr>nodeValue := (nodeValue st)(a := v), nodeValue := nv\<rparr>)
             = Inr (st\<lparr>nodeValue := (nodeValue st)(a := v), nodeValue := apply_writes ws nv\<rparr>)"
      by blast
    have "\<forall>nv. patch_text_nodes b (TextNode a # ns) k (st\<lparr>nodeValue := nv\<rparr>)
            = Inr (st\<lparr>nodeValue := apply_writes ((a, v) # ws) nv\<rparr>)"
    proof
      fix nv
      from ws have "patch_text_nodes b ns (Suc k) (st\<lparr>nodeValue := nv(a := v)\<rparr>)
             = Inr (st\<lparr>nodeValue := apply_writes ws (nv(a := v))\<rparr>)"
        by simp
      then show "patch_text_nodes b (TextNode a # ns) k (st\<lparr>nodeValue := nv\<rparr>)
            = Inr (st\<lparr>nodeValue := apply_writes ((a, v) # ws) nv\<rparr>)"
        using True v by simp
    qed
    then show ?thesis by blast
  next
    case False
    with "2.prems" have run: "patch_text_nodes b ns (Suc k) st = Inr st'" by simp
    from "2.IH"(2) [OF False run] False show ?thesis by simp
  qed
next
  case (3 b a dc kids ns k st)
  then show ?case by simp
next
  case (4 b a ns k st)
  then show ?case by simp
qed

lemma update_uniform:
  "update_loop fuel bs i st = Some (Inr st') \<Longrightarrow>
   \<exists>ws. \<forall>nv. update_loop fuel bs i (st\<lparr>nodeValue := nv\<rparr>)
            = Some (Inr (st\<lparr>nodeValue := apply_writes ws nv\<rparr>))"
proof (induction fuel arbitrary: i st st')
  case 0
  then show ?case by simp
next
  case (Suc fuel)
  show ?case
  proof (cases "i < length bs")
    case False
    then have "\<forall>nv. update_loop (Suc fuel) bs i (st\<lparr>nodeValue := nv\<rparr>)
            = Some (Inr (st\<lparr>nodeValue := apply_writes [] nv\<rparr>))"
      by simp
    then show ?thesis by blast
  next
    case True
    with Suc.prems obtain kids st1 where
      q: "querySelector st (BindingElement (elementBindingId (bs ! i))) = Some kids"
      and p: "patch_text_nodes (bs ! i) kids 0 st = Inr st1"
      and r: "update_loop fuel bs (Suc (length kids)) st1 = Some (Inr st')"
      by (auto split: option.splits sum.splits)
    from patch_uniform [OF p] obtain ws1 where
      ws1: "\<And>nv. patch_text_nodes (bs ! i) kids 0 (st\<lparr>nodeValue := nv\<rparr>)
              = Inr (st\<lparr>nodeValue := apply_writes ws1 nv\<rparr>)"
      by blast
    from ws1 [of "nodeValue st"] p
    have st1: "st1 = st\<lparr>nodeValue := apply_writes ws1 (nodeValue st)\<rparr>"
      by simp
    from Suc.IH [OF r] obtain ws2 where
      ws2: "\<And>nv. update_loop fuel bs (Suc (length kids)) (st1\<lparr>nodeValue := nv\<rparr>)
              = Some (Inr (st1\<lparr>nodeValue := apply_writes ws2 nv\<rparr>))"
      by blast
    have "\<forall>nv. update_loop (Suc fuel) bs i (st\<lparr>nodeValue := nv\<rparr>)
            = Some (Inr (st\<lparr>nodeValue := apply_writes (ws1 @ ws2) nv\<rparr>))"
    proof
      fix nv
      have "update_loop fuel bs (Suc (length kids)) (st\<lparr>nodeValue := apply_writes ws1 nv\<rparr>)
            = Some (Inr (st\<lparr>nodeValue := apply_writes ws2 (apply_writes ws1 nv)\<rparr>))"
        using ws2 [of "apply_writes ws1 nv"] by (simp add: st1)
      then show "update_loop (Suc fuel) bs i (st\<lparr>nodeValue := nv\<rparr>)
            = Some (Inr (st\<lparr>nodeValue := apply_writes (ws1 @ ws2) nv\<rparr>))"
        using True q ws1 [of nv] by (simp add: apply_writes_append)
    qed
    then show ?thesis by blast
  qed
qed

text \<open>More fuel does not change the result of a run that ended.\<close>

lemma update_loop_more_fuel:
  "update_loop fuel bs i st = Some r \<Longrightarrow> fuel \<le> fuel' \<Longrightarrow> update_loop fuel' bs i st = Some r"
proof (induction fuel arbitrary: fuel' i st)
  case 0
  then show ?case by simp
next
  case (Suc fuel)
  from Suc.prems(2) obtain g where g: "fuel' = Suc g" and le: "fuel \<le> g"
    by (cases fuel') auto
  show ?case
    using Suc.prems(1) Suc.IH [OF _ le]
    by (auto simp: g split: option.splits sum.splits if_splits)
qed

subsection \<open>Sample runs\<close>

lemma update_loop_numeral:
  "update_loop (numeral n) bs i st = update_loop (Suc (pred_numeral n)) bs i st"
  by (simp add: numeral_eq_Suc)

lemma hello_constructed:
  "construct sample_templates (\<lambda>_. False) 0 0 ''Hello'' None = Inr (hello_built, None)"
  by (simp add: construct_def sample_templates_def hello_template_def hello_built_def
      title_info_def string_eval)

lemma hello_update:
  "triggerBindingUpdate 2 ''title'' (set_title ''World'' hello_built) = Some (Inr hello_world)"
  by (simp add: triggerBindingUpdate_def querySelector_def set_title_def hello_built_def
      hello_world_def title_info_def string_eval update_loop_numeral)

lemma twin_constructed:
  "construct sample_templates (\<lambda>_. False) 0 0 ''Twin'' None = Inr (twin_built, None)"
  by (simp add: construct_def sample_templates_def twin_template_def twin_built_def
      title_info_def string_eval fun_upd_twist)

lemma twin_update:
  "triggerBindingUpdate (Suc (Suc fuel)) ''title'' (set_title ''World'' twin_built)
     = Some (Inr twin_after_update)"
  by (simp add: triggerBindingUpdate_def querySelector_def set_title_def twin_built_def
      twin_after_update_def title_info_def string_eval fun_upd_twist)

lemma twin_update_again:
  "triggerBindingUpdate (Suc (Suc fuel)) ''title'' twin_after_update = Some (Inr twin_after_update)"
  by (simp add: triggerBindingUpdate_def querySelector_def set_title_def twin_built_def
      twin_after_update_def title_info_def string_eval fun_upd_twist)



text \<open>
  A placeholder in a text node of the root element is resolved when the component is
  built and never again: \<^verbatim>\<open>querySelector\<close> looks among the descendants of the root,
  the root is not one of them, and resolution throws.
\<close>

lemma root_text_binding_throws:
  "construct sample_templates (\<lambda>_. False) 0 0 ''Root'' None = Inr (root_built, None) \<and>
   triggerBindingUpdate (Suc fuel) ''title'' (set_title ''World'' root_built) = Some (Inl TypeError)"
  by (simp add: construct_def sample_templates_def root_template_def root_built_def
      triggerBindingUpdate_def querySelector_def set_title_def title_info_def string_eval)

text \<open>
  A text node with two placeholders is written in full when one of the two paths
  changes.
\<close>

lemma two_token_discovery:
  "processElements (\<lambda>_. False) 0 None two_token_kids
     (sample_component two_token_kids two_token_vals) = Inr two_token_discovered"
  by (simp add: two_token_kids_def sample_component_def two_token_vals_def
      two_token_info_def two_token_discovered_def string_eval)

lemma two_token_update:
  "triggerBindingUpdate 2 ''a'' (set_a ''7'' two_token_discovered) = Some (Inr two_token_patched)"
  by (simp add: triggerBindingUpdate_def querySelector_def set_a_def two_token_kids_def
      two_token_info_def two_token_discovered_def two_token_patched_def string_eval
      update_loop_numeral)

text \<open>
  The shared counter can send the loop back: on \<open>looping_component\<close> the records read
  are those at 0, 4, 2, 4, 2 and so on, and no amount of fuel is enough.
\<close>

lemma looping_step:
  "update_loop (Suc fuel) looping_bindings 4 (looping_component vals)
     = update_loop fuel looping_bindings 2 (looping_component (vals(41 := ''x'')))"
  "update_loop (Suc fuel) looping_bindings 2 (looping_component vals)
     = update_loop fuel looping_bindings 4 (looping_component (vals(21 := ''x'')))"
  "update_loop (Suc fuel) looping_bindings 0 (looping_component vals)
     = update_loop fuel looping_bindings 4 (looping_component (vals(11 := ''xx'')))"
proof -
  have n: "Suc (Suc 0) = 2" "Suc (Suc (Suc (Suc 0))) = 4"
    by simp_all
  show "update_loop (Suc fuel) looping_bindings 4 (looping_component vals)
     = update_loop fuel looping_bindings 2 (looping_component (vals(41 := ''x'')))"
    by (simp add: looping_bindings_def looping_component_def querySelector_def
        title_info_def string_eval n)
  show "update_loop (Suc fuel) looping_bindings 2 (looping_component vals)
     = update_loop fuel looping_bindings 4 (looping_component (vals(21 := ''x'')))"
    by (simp add: looping_bindings_def looping_component_def querySelector_def
        title_info_def string_eval n)
  show "update_loop (Suc fuel) looping_bindings 0 (looping_component vals)
     = update_loop fuel looping_bindings 4 (looping_component (vals(11 := ''xx'')))"
    by (simp add: looping_bindings_def looping_component_def querySelector_def
        title_info_def string_eval n)
qed

lemma looping_from_2_or_4:
  "update_loop fuel looping_bindings 2 (looping_component vals) = None \<and>
   update_loop fuel looping_bindings 4 (looping_component vals) = None"
proof (induction fuel arbitrary: vals)
  case 0
  then show ?case by simp
next
  case (Suc fuel)
  then show ?case by (simp only: looping_step)
qed

lemma update_loop_can_run_forever:
  "triggerBindingUpdate fuel ''title'' (looping_component vals) = None"
proof (cases fuel)
  case 0
  then show ?thesis
    by (simp add: triggerBindingUpdate_def looping_component_def)
next
  case (Suc n)
  have tb: "textBindings (looping_component vals) ''title'' = Some looping_bindings"
    by (simp add: looping_component_def)
  have "triggerBindingUpdate (Suc n) ''title'' (looping_component vals)
      = update_loop (Suc n) looping_bindings 0 (looping_component vals)"
    by (simp add: triggerBindingUpdate_def tb del: update_loop.simps)
  also have "\<dots> = update_loop n looping_bindings 4 (looping_component (vals(11 := ''xx'')))"
    by (rule looping_step(3))
  also have "\<dots> = None"
    using looping_from_2_or_4 [of n "vals(11 := ''xx'')"] by blast
  finally show ?thesis by (simp only: Suc)
qed

subsection \<open>Idempotence of resolution\<close>

text \<open>
  C9.  When a run of \<^verbatim>\<open>triggerBindingUpdate\<close> for a path has returned, a second run
  for the same path, the observables being what they were, returns too and leaves the
  very state the first run left: every text node holds what it held after the first
  run.  Each pass writes the stored template text resolved against the observables, not
  the current content of the node.
\<close>

theorem resolution_idempotent:
  assumes "triggerBindingUpdate fuel path st = Some (Inr st')" and "fuel \<le> fuel'"
  shows "triggerBindingUpdate fuel' path st' = Some (Inr st')"
proof -
  from assms(1) obtain bs where bs: "textBindings st path = Some bs"
    and run: "update_loop fuel bs 0 st = Some (Inr st')"
    by (auto simp: triggerBindingUpdate_def split: option.splits)
  from update_uniform [OF run] obtain ws where
    ws: "\<And>nv. update_loop fuel bs 0 (st\<lparr>nodeValue := nv\<rparr>)
           = Some (Inr (st\<lparr>nodeValue := apply_writes ws nv\<rparr>))"
    by blast
  from ws [of "nodeValue st"] run
  have st': "st' = st\<lparr>nodeValue := apply_writes ws (nodeValue st)\<rparr>"
    by simp
  have "update_loop fuel bs 0 st' = Some (Inr st')"
    using ws [of "apply_writes ws (nodeValue st)"] by (simp add: st' apply_writes_idem)
  then have "update_loop fuel' bs 0 st' = Some (Inr st')"
    using assms(2) by (rule update_loop_more_fuel)
  moreover have "textBindings st' path = Some bs"
    by (simp add: st' bs)
  ultimately show ?thesis by (simp add: triggerBindingUpdate_def)
qed

theorem resolution_idempotent_witness:
  "triggerBindingUpdate 2 ''title'' (set_title ''World'' hello_built) = Some (Inr hello_world) \<and>
   (2::nat) \<le> 5 \<and>
   triggerBindingUpdate 5 ''title'' hello_world = Some (Inr hello_world) \<and>
   nodeValue hello_world 2 = ''Hello World''"
  using resolution_idempotent [of 2 "''title''" "set_title ''World'' hello_built" hello_world 5]
    hello_update
  by (simp add: hello_world_def)

subsection \<open>Records that resolution does not reach\<close>

text \<open>
  C4.  The template of \<open>Twin\<close> has two paragraphs that each show \<open>{{title}}\<close>, so the
  constructor registers two records for the path \<open>title\<close>.  After the title has become
  \<open>World\<close>, a call of \<^verbatim>\<open>triggerBindingUpdate\<close> for \<open>title\<close> returns with the first
  paragraph reading \<open>World\<close> and the second still empty, whatever the fuel; the call made
  for the second subscriber finds the same state and leaves it.  The second record is
  never located: the inner loop shares the counter of the outer one.
\<close>

theorem second_record_not_updated:
  "construct sample_templates (\<lambda>_. False) 0 0 ''Twin'' None = Inr (twin_built, None) \<and>
   map_option length (textBindings twin_built ''title'') = Some 2 \<and>
   triggerBindingUpdate (Suc (Suc fuel)) ''title'' (set_title ''World'' twin_built)
     = Some (Inr twin_after_update) \<and>
   triggerBindingUpdate (Suc (Suc fuel)) ''title'' twin_after_update = Some (Inr twin_after_update) \<and>
   observables twin_after_update ''title'' = Some ''World'' \<and>
   nodeValue twin_after_update 2 = ''World'' \<and>
   nodeValue twin_after_update 4 = []"
  using twin_constructed twin_update [of fuel] twin_update_again [of fuel]
  by (simp add: twin_after_update_def twin_built_def set_title_def)

subsection \<open>A binding element that is not found\<close>

text \<open>
  C5, as the claim states it, fails: the paragraph of \<open>Hello\<close> is gone from the
  document, the lookup of its binding element finds nothing, and resolution for \<open>title\<close>
  does not return the state unchanged: it throws a \<^verbatim>\<open>TypeError\<close>.
\<close>

theorem stale_owner_counterexample:
  "querySelector hello_stale (BindingElement 0) = None \<and>
   triggerBindingUpdate 1 ''title'' hello_stale \<noteq> Some (Inr hello_stale) \<and>
   triggerBindingUpdate 1 ''title'' hello_stale = Some (Inl TypeError)"
  by (simp add: triggerBindingUpdate_def querySelector_def hello_stale_def set_title_def
      hello_built_def title_info_def)

text \<open>
  C5, amended.  When resolution reaches a record whose binding element is not found
  among the descendants of the root, the read of \<^verbatim>\<open>childNodes\<close> on \<^verbatim>\<open>null\<close> throws a
  \<^verbatim>\<open>TypeError\<close>: nothing is patched for that record and no later record is processed.
  When that record is the first of its path, the whole call throws.
\<close>

theorem stale_owner_throws:
  assumes "textBindings st path = Some bs" and "i < length bs"
    and "querySelector st (BindingElement (elementBindingId (bs ! i))) = None"
  shows "update_loop (Suc fuel) bs i st = Some (Inl TypeError) \<and>
         (i = 0 \<longrightarrow> triggerBindingUpdate (Suc fuel) path st = Some (Inl TypeError))"
  using assms by (auto simp: triggerBindingUpdate_def)

theorem stale_owner_throws_witness:
  "textBindings hello_stale ''title'' = Some [title_info 0 ''Hello {{title}}''] \<and>
   (0::nat) < length [title_info 0 ''Hello {{title}}''] \<and>
   querySelector hello_stale
     (BindingElement (elementBindingId ([title_info 0 ''Hello {{title}}''] ! 0))) = None \<and>
   update_loop (Suc 0) [title_info 0 ''Hello {{title}}''] 0 hello_stale = Some (Inl TypeError) \<and>
   triggerBindingUpdate (Suc 0) ''title'' hello_stale = Some (Inl TypeError)"
proof -
  have a: "textBindings hello_stale ''title'' = Some [title_info 0 ''Hello {{title}}'']"
    by (simp add: hello_stale_def set_title_def hello_built_def)
  have b: "(0::nat) < length [title_info 0 ''Hello {{title}}'']"
    by simp
  have c: "querySelector hello_stale
     (BindingElement (elementBindingId ([title_info 0 ''Hello {{title}}''] ! 0))) = None"
    by (simp add: querySelector_def hello_stale_def)
  from stale_owner_throws [OF a b c, of 0] a b c show ?thesis by simp
qed

subsection \<open>Discovery at a subcomponent boundary\<close>









subsection \<open>Property bindings in the constructor\<close>

lemma bind_properties_throws:
  "propertyBindings this = Map.empty \<Longrightarrow>
   \<exists>nv\<in>set attrs. prefix ''data-property-'' (fst nv) \<Longrightarrow>
   bind_properties attrs this parent = Inl TypeError"
proof (induction attrs)
  case Nil
  then show ?case by simp
next
  case (Cons nv attrs)
  obtain n v where nv: "nv = (n, v)" by (cases nv)
  show ?case
  proof (cases "prefix ''data-property-'' n")
    case True
    with Cons.prems(1) show ?thesis
      by (simp add: nv Let_def split: option.splits)
  next
    case False
    with Cons show ?thesis by (simp add: nv)
  qed
qed

text \<open>
  C7.  A template that declares a property binding cannot be constructed: the record is
  pushed to the entry of \<^verbatim>\<open>propertyBindings\<close> for the path, an entry that nothing ever
  creates (the line before creates the one of \<^verbatim>\<open>textBindings\<close>), and the constructor
  throws a \<^verbatim>\<open>TypeError\<close>.  No property binding record exists afterwards.
\<close>

theorem property_binding_throws:
  assumes "templates (''template_'' @ ident) = Some t"
    and "\<exists>nv\<in>set (tpl_attributes t). prefix ''data-property-'' (fst nv)"
  shows "construct templates window counter root ident parent = Inl TypeError"
  using assms by (simp add: construct_def Let_def bind_properties_throws)

theorem property_binding_throws_witness:
  "sample_templates (''template_'' @ ''Child'') = Some property_template \<and>
   (\<exists>nv\<in>set (tpl_attributes property_template). prefix ''data-property-'' (fst nv)) \<and>
   observables hello_built ''title'' = Some [] \<and>
   construct sample_templates (\<lambda>_. False) 1 10 ''Child'' (Some hello_built) = Inl TypeError"
proof -
  have a: "sample_templates (''template_'' @ ''Child'') = Some property_template"
    by (simp add: sample_templates_def)
  have b: "\<exists>nv\<in>set (tpl_attributes property_template). prefix ''data-property-'' (fst nv)"
    by (simp add: property_template_def)
  have c: "observables hello_built ''title'' = Some []"
    by (simp add: hello_built_def)
  from property_binding_throws [of sample_templates "''Child''" property_template, OF a b] a b c
  show ?thesis by blast
qed

section \<open>Properties of the repeater\<close>

subsection \<open>Splicing\<close>

lemma length_splice_in [simp]: "length (splice_in p x xs) = Suc (length xs)"
  by (simp add: splice_in_def)

lemma length_splice_out [simp]:
  "p < length xs \<Longrightarrow> length (splice_out p xs) = length xs - 1"
  by (simp add: splice_out_def)





subsection \<open>What the two handlers leave\<close>

lemma bind_nodes_records:
  "bind_nodes np ns sc bd = (recs, bd') \<Longrightarrow> b \<in> set recs \<Longrightarrow> b_scope b = sc \<and> b_node b \<in> set ns"
proof (induction ns arbitrary: bd recs bd')
  case Nil
  then show ?case by simp
next
  case (Cons n ns)
  obtain more bd2 where more: "bind_nodes np ns sc (snd (processBindings (np n) n sc bd)) = (more, bd2)"
    by (cases "bind_nodes np ns sc (snd (processBindings (np n) n sc bd))")
  with Cons.prems(1) have recs: "recs = fst (processBindings (np n) n sc bd) @ more"
    by (simp add: Let_def split: prod.splits)
  from Cons.prems(2) consider "b \<in> set (fst (processBindings (np n) n sc bd))" | "b \<in> set more"
    by (auto simp: recs)
  then show ?case
  proof cases
    case 1
    then show ?thesis by (auto simp: processBindings_def Let_def)
  next
    case 2
    from Cons.IH [OF more 2] show ?thesis by simp
  qed
qed


lemma itemRemoved_result:
  assumes "itemRemoved p s = Inr s'"
  shows "p < length (itemNodes s)" and "p < length (itemNodeBindings s)"
    and "itemNodes s' = splice_out p (itemNodes s)"
    and "itemNodeBindings s' = splice_out p (itemNodeBindings s)"
    and "nextNode s' = nextNode s" and "nodeContext s' = nodeContext s"
    and "remove_nodes (itemNodes s ! p) (siblings s) = Inr (siblings s')"
    and "live (dataBinder s') = filter (\<lambda>r. r \<notin> set (itemNodeBindings s ! p)) (live (dataBinder s))"
    and "patches (dataBinder s') = patches (dataBinder s)"
  using assms
  by (auto simp: itemRemoved_def releaseBindings_def Let_def
      split: option.splits sum.splits if_splits)

lemma entry_ok_mono:
  assumes "entry_ok ctx bound e" and "bound \<le> bound'"
    and "\<And>n. n < bound \<Longrightarrow> ctx' n = ctx n"
  shows "entry_ok ctx' bound' e"
  using assms by (cases e) (auto simp: entry_ok_def list_all_iff)





subsection \<open>The child list\<close>

lemma nextSibling_in: "nextSibling xs n = Some m \<Longrightarrow> m \<in> set xs"
  by (induction xs n rule: nextSibling.induct) (auto split: if_splits)

lemma nextSibling_append:
  "n \<notin> set pre \<Longrightarrow> nextSibling (pre @ n # post) n = (case post of [] \<Rightarrow> None | m # _ \<Rightarrow> Some m)"
proof (induction pre)
  case Nil
  then show ?case by (cases post) auto
next
  case (Cons a pre)
  then show ?case by (cases "pre @ n # post") auto
qed

lemma insert_before_append:
  "r \<notin> set pre \<Longrightarrow> insert_before (pre @ r # post) new r = Some (pre @ new @ r # post)"
  by (induction pre) auto

lemma insertBefore_at:
  "r \<notin> set pre \<Longrightarrow> insertBefore (pre @ r # post) new (Some r) = Inr (pre @ new @ r # post)"
  by (simp add: insertBefore_def insert_before_append)

lemma insertBefore_member:
  assumes "r \<in> set sibs"
  shows "\<exists>pre post. sibs = pre @ r # post \<and> insertBefore sibs new (Some r) = Inr (pre @ new @ r # post)"
proof -
  from assms obtain pre post where sp: "sibs = pre @ r # post" and "r \<notin> set pre"
    by (auto dest: split_list_first)
  then show ?thesis using insertBefore_at [of r pre post new] by blast
qed

lemma insertBefore_total:
  assumes "case refNode of None \<Rightarrow> True | Some r \<Rightarrow> r \<in> set sibs"
  shows "\<exists>l. insertBefore sibs new refNode = Inr l \<and> set l = set sibs \<union> set new \<and>
           (distinct sibs \<and> distinct new \<and> set sibs \<inter> set new = {} \<longrightarrow> distinct l)"
proof (cases refNode)
  case None
  then show ?thesis by (auto simp: insertBefore_def)
next
  case (Some r)
  with assms have "r \<in> set sibs" by simp
  from insertBefore_member [OF this, of new] obtain pre post where
    "sibs = pre @ r # post" "insertBefore sibs new (Some r) = Inr (pre @ new @ r # post)"
    by blast
  with Some show ?thesis by auto
qed

lemma remove_nodes_filter:
  "distinct sibs \<Longrightarrow> distinct ns \<Longrightarrow> set ns \<subseteq> set sibs \<Longrightarrow>
   remove_nodes ns sibs = Inr (filter (\<lambda>n. n \<notin> set ns) sibs)"
proof (induction ns arbitrary: sibs)
  case Nil
  then show ?case by simp
next
  case (Cons n ns)
  have r1: "remove1 n sibs = filter (\<lambda>m. m \<noteq> n) sibs"
    using Cons.prems(1) by (simp add: distinct_remove1_removeAll removeAll_filter_not_eq) metis
  have "remove_nodes ns (remove1 n sibs) = Inr (filter (\<lambda>m. m \<notin> set ns) (remove1 n sibs))"
    using Cons.prems by (intro Cons.IH) auto
  then show ?case
    using Cons.prems(3) by (auto simp: removeChild_def r1 intro: filter_cong)
qed

lemma insertBefore_after:
  assumes "distinct (pre @ r # post)"
  shows "insertBefore (pre @ r # post) new (nextSibling (pre @ r # post) r)
           = Inr (pre @ r # new @ post)"
proof (cases post)
  case Nil
  with assms show ?thesis by (simp add: nextSibling_append insertBefore_def)
next
  case (Cons m post')
  from assms Cons have "m \<notin> set (pre @ [r])" by auto
  from insertBefore_at [OF this, of post' new] assms Cons show ?thesis
    by (simp add: nextSibling_append)
qed

lemma reference_node_cong:
  "itemNodes t = itemNodes s \<Longrightarrow> siblings t = siblings s \<Longrightarrow> self t = self s \<Longrightarrow>
   reference_node p t = reference_node p s"
  by (simp add: reference_node_def split: list.splits)

lemma itemAdded_with_reference:
  assumes "template s = Some content" and "reference_node p s = Inr refNode"
    and "insertBefore (siblings s) (new_nodes s) refNode = Inr sibs"
  shows "\<exists>s'. itemAdded x p s = Inr s' \<and> siblings s' = sibs \<and>
           itemNodes s' = splice_in p (new_nodes s) (itemNodes s) \<and>
           template s' = template s \<and> nextNode s' = nextNode s + length content \<and> self s' = self s"
proof -
  obtain cloneNodes s1 where c: "clone_template content (nextScope s, x) (s\<lparr>nextScope := Suc (nextScope s)\<rparr>) = (cloneNodes, s1)"
    by (cases "clone_template content (nextScope s, x) (s\<lparr>nextScope := Suc (nextScope s)\<rparr>)")
  then have cn: "cloneNodes = new_nodes s" and s1: "siblings s1 = siblings s" "itemNodes s1 = itemNodes s"
    "template s1 = template s" "nextNode s1 = nextNode s + length content" "self s1 = self s"
    using assms(1) by (auto simp: clone_template_def new_nodes_def Let_def)
  from s1 have ref: "reference_node p s1 = reference_node p s"
    by (intro reference_node_cong)
  show ?thesis
    using assms c ref
    by (simp add: itemAdded_def Let_def cn s1 split: prod.splits)
qed

text \<open>
  A handler can throw: when the last entry has no node, which takes a template without
  content, appending reads \<^verbatim>\<open>nextSibling\<close> of \<^verbatim>\<open>undefined\<close>.
\<close>

lemma itemAdded_empty_entry_throws:
  assumes "template s = Some content" and "itemNodes s \<noteq> []"
    and "length (itemNodes s) \<le> p" and "last (itemNodes s) = []"
  shows "itemAdded x p s = Inl TypeError"
proof -
  obtain cloneNodes s1 where c: "clone_template content (nextScope s, x) (s\<lparr>nextScope := Suc (nextScope s)\<rparr>) = (cloneNodes, s1)"
    by (cases "clone_template content (nextScope s, x) (s\<lparr>nextScope := Suc (nextScope s)\<rparr>)")
  then have s1: "siblings s1 = siblings s" "itemNodes s1 = itemNodes s" "self s1 = self s"
    by (auto simp: clone_template_def Let_def)
  then have "reference_node p s1 = reference_node p s"
    by (intro reference_node_cong)
  moreover have "reference_node p s = Inl TypeError"
    using assms(2,3,4) by (simp add: reference_node_def)
  ultimately show ?thesis
    using assms(1) c by (simp add: itemAdded_def Let_def)
qed

subsection \<open>Well-formed documents stay well-formed\<close>





lemma itemRemoved_with_nodes:
  assumes "p < length (itemNodes s)" and "p < length (itemNodeBindings s)"
    and "remove_nodes (itemNodes s ! p) (siblings s) = Inr sibs"
  shows "\<exists>s'. itemRemoved p s = Inr s' \<and> siblings s' = sibs \<and>
           itemNodes s' = splice_out p (itemNodes s) \<and>
           itemNodeBindings s' = splice_out p (itemNodeBindings s) \<and>
           template s' = template s \<and> nextNode s' = nextNode s \<and>
           live (dataBinder s') = filter (\<lambda>r. r \<notin> set (itemNodeBindings s ! p)) (live (dataBinder s)) \<and>
           patches (dataBinder s') = patches (dataBinder s)"
  using assms by (simp add: itemRemoved_def releaseBindings_def Let_def)



subsection \<open>A populated repeater\<close>

lemma populate_loop_step:
  assumes t: "template s = Some content" and c: "content \<noteq> []"
    and ins: "insertBefore (siblings s) (new_nodes s) refNode = Inr sibs"
  shows "\<exists>s1 recs bd.
           populate_loop (x # xs) refNode s
             = populate_loop xs (nextSibling sibs (last (new_nodes s))) s1 \<and>
           siblings s1 = sibs \<and> itemNodes s1 = itemNodes s @ [new_nodes s] \<and>
           bind_nodes (nodePaths s1) (new_nodes s) (nextScope s, x) (dataBinder s) = (recs, bd) \<and>
           itemNodeBindings s1 = itemNodeBindings s @ [recs] \<and>
           template s1 = template s \<and> nextNode s1 = nextNode s + length content \<and>
           dataContext s1 = dataContext s \<and>
           (\<forall>n. n < nextNode s \<longrightarrow> nodeContext s1 n = nodeContext s n) \<and>
           (\<forall>n\<in>set (new_nodes s). nodeContext s1 n = Some (nextScope s, x))"
proof -
  have new: "new_nodes s = [nextNode s ..< nextNode s + length content]"
    by (simp add: new_nodes_def t)
  obtain cloneNodes s1 where
    cl: "clone_template content (nextScope s, x) (s\<lparr>nextScope := Suc (nextScope s)\<rparr>)
           = (cloneNodes, s1)"
    by (cases "clone_template content (nextScope s, x) (s\<lparr>nextScope := Suc (nextScope s)\<rparr>)")
  then have cn: "cloneNodes = new_nodes s"
    and f: "siblings s1 = siblings s" "itemNodes s1 = itemNodes s"
      "itemNodeBindings s1 = itemNodeBindings s" "dataBinder s1 = dataBinder s"
      "template s1 = template s" "nextNode s1 = nextNode s + length content"
      "dataContext s1 = dataContext s"
    and keep: "\<And>n. n < nextNode s \<Longrightarrow> nodeContext s1 n = nodeContext s n"
    and fresh: "\<And>n. n \<in> set (new_nodes s) \<Longrightarrow> nodeContext s1 n = Some (nextScope s, x)"
    by (auto simp: clone_template_def Let_def new)
  from c have ne: "cloneNodes \<noteq> []"
    by (simp add: cn new)
  obtain recs bd where
    bn: "bind_nodes (nodePaths s1) cloneNodes (nextScope s, x) (dataBinder s) = (recs, bd)"
    by (cases "bind_nodes (nodePaths s1) cloneNodes (nextScope s, x) (dataBinder s)")
  let ?s3 = "s1\<lparr>itemNodes := itemNodes s @ [cloneNodes], siblings := sibs,
               itemNodeBindings := itemNodeBindings s @ [recs], dataBinder := bd\<rparr>"
  have skip: "\<And>a b. (case cloneNodes of [] \<Rightarrow> a | _ # _ \<Rightarrow> b) = (b :: error + 'a repeater)"
    using ne by (cases cloneNodes) auto
  have "populate_loop (x # xs) refNode s
          = populate_loop xs (nextSibling sibs (last cloneNodes)) ?s3"
    using t cl ins bn by (simp add: Let_def f cn [symmetric] skip del: bind_nodes.simps)
  then show ?thesis
    using bn f keep fresh by (intro exI [of _ ?s3] exI [of _ recs] exI [of _ bd]) (simp add: cn)
qed

lemma populate_loop_invariant:
  "well_formed s \<Longrightarrow> aligned done s \<Longrightarrow>
   (case refNode of None \<Rightarrow> True | Some r \<Rightarrow> r \<in> set (siblings s)) \<Longrightarrow>
   \<exists>s'. populate_loop xs refNode s = Inr s' \<and> well_formed s' \<and> aligned (done @ xs) s' \<and>
        dataContext s' = dataContext s"
proof (induction xs arbitrary: s "done" refNode)
  case Nil
  then show ?case by simp
next
  case (Cons x xs)
  note wf = Cons.prems(1) and al = Cons.prems(2) and rin = Cons.prems(3)
  from wf obtain content where t: "template s = Some content" and c: "content \<noteq> []"
    by (auto simp: well_formed_def split: option.splits)
  from wf have ne: "list_all (\<lambda>ns. ns \<noteq> []) (itemNodes s)"
    and ds: "distinct (siblings s)"
    and old: "list_all (\<lambda>n. n < nextNode s) (siblings s)"
    and dc: "distinct (concat (itemNodes s))"
    and sub: "list_all (\<lambda>n. n \<in> set (siblings s)) (concat (itemNodes s))"
    by (simp_all add: well_formed_def)
  have new: "new_nodes s = [nextNode s ..< nextNode s + length content]"
    by (simp add: new_nodes_def t)
  have nonempty: "new_nodes s \<noteq> []"
    using c by (simp add: new)
  have fresh: "set (siblings s) \<inter> set (new_nodes s) = {}"
    using old by (auto simp: new list_all_iff)
  from insertBefore_total [OF rin, of "new_nodes s"] obtain l where
    l: "insertBefore (siblings s) (new_nodes s) refNode = Inr l"
    and sl: "set l = set (siblings s) \<union> set (new_nodes s)"
    and dl: "distinct l"
    using ds fresh by (auto simp: new)
  from populate_loop_step [OF t c l, of x xs] obtain s1 recs bd where
    step: "populate_loop (x # xs) refNode s
             = populate_loop xs (nextSibling l (last (new_nodes s))) s1"
    and s1: "siblings s1 = l" "itemNodes s1 = itemNodes s @ [new_nodes s]"
      "itemNodeBindings s1 = itemNodeBindings s @ [recs]"
      "template s1 = template s" "nextNode s1 = nextNode s + length content"
    and bn: "bind_nodes (nodePaths s1) (new_nodes s) (nextScope s, x) (dataBinder s) = (recs, bd)"
    and dctx: "dataContext s1 = dataContext s"
    and keep: "\<And>n. n < nextNode s \<Longrightarrow> nodeContext s1 n = nodeContext s n"
    and fresh_ctx: "\<And>n. n \<in> set (new_nodes s) \<Longrightarrow> nodeContext s1 n = Some (nextScope s, x)"
    by blast
  have a2: "list_all (\<lambda>n. n < nextNode s + length content) l"
    using sl old by (auto simp: list_all_iff new)
  have disj: "set (new_nodes s) \<inter> set (concat (itemNodes s)) = {}"
    using fresh sub by (auto simp: list_all_iff)
  have a4: "list_all (\<lambda>n. n \<in> set l) (concat (itemNodes s) @ new_nodes s)"
    using sub sl by (auto simp: list_all_iff)
  have wf1: "well_formed s1"
    using t c ne nonempty dl a2 dc disj a4
    by (simp add: well_formed_def s1) (auto simp: new)
  from al have len: "length (itemNodes s) = length done" "length (itemNodeBindings s) = length done"
    and olds: "list_all (entry_ok (nodeContext s) (nextNode s))
        (zip done (zip (itemNodes s) (itemNodeBindings s)))"
    by (simp_all add: aligned_def)
  have olds1: "list_all (entry_ok (nodeContext s1) (nextNode s1))
        (zip done (zip (itemNodes s) (itemNodeBindings s)))"
    using olds keep by (auto simp: list_all_iff s1 intro: entry_ok_mono)
  have new_ok: "entry_ok (nodeContext s1) (nextNode s1) (x, new_nodes s, recs)"
    using fresh_ctx bind_nodes_records [OF bn]
    by (auto simp: entry_ok_def list_all_iff s1 new)
  have al1: "aligned (done @ [x]) s1"
    using len olds1 new_ok by (simp add: aligned_def s1(2,3))
  have rin1: "case nextSibling l (last (new_nodes s)) of None \<Rightarrow> True
      | Some r \<Rightarrow> r \<in> set (siblings s1)"
    by (auto simp: s1 split: option.splits dest: nextSibling_in)
  from Cons.IH [OF wf1 al1 rin1] step dctx show ?case by auto
qed

text \<open>
  \<^verbatim>\<open>dataContextUpdated\<close> on a well-formed repeater whose data context is an
  \<^verbatim>\<open>ObservableArray\<close> returns, and the repeater it leaves is aligned with the array and
  well-formed: a populated repeater is one that \<open>index_alignment\<close> speaks about.
\<close>

lemma dataContextUpdated_populates:
  assumes wf: "well_formed s" and ctx: "dataContext s = ObservableArray arr"
  shows "\<exists>s'. dataContextUpdated s = Inr s' \<and> aligned arr s' \<and> well_formed s'"
proof -
  from wf have ds: "distinct (siblings s)"
    and old: "list_all (\<lambda>n. n < nextNode s) (siblings s)"
    and dc: "distinct (concat (itemNodes s))"
    and sub: "list_all (\<lambda>n. n \<in> set (siblings s)) (concat (itemNodes s))"
    and t: "case template s of None \<Rightarrow> False | Some content \<Rightarrow> content \<noteq> []"
    by (simp_all add: well_formed_def)
  from sub have "set (concat (itemNodes s)) \<subseteq> set (siblings s)"
    by (auto simp: list_all_iff)
  from remove_nodes_filter [OF ds dc this]
  have rm: "remove_nodes (concat (itemNodes s)) (siblings s)
      = Inr (filter (\<lambda>n. n \<notin> set (concat (itemNodes s))) (siblings s))" .
  let ?sibs = "filter (\<lambda>n. n \<notin> set (concat (itemNodes s))) (siblings s)"
  let ?s0 = "s\<lparr>siblings := ?sibs, itemNodes := [], itemNodeBindings := []\<rparr>"
  have b3: "list_all (\<lambda>n. n < nextNode s) ?sibs"
    using old by (auto simp: list_all_iff)
  have wf0: "well_formed ?s0"
    using t ds b3 by (simp add: well_formed_def)
  have al0: "aligned [] ?s0"
    by (simp add: aligned_def)
  have rin: "case nextSibling (siblings ?s0) (self ?s0) of None \<Rightarrow> True
      | Some r \<Rightarrow> r \<in> set (siblings ?s0)"
    by (auto split: option.splits dest: nextSibling_in)
  from populate_loop_invariant [OF wf0 al0 rin, of arr] obtain s1 where
    run: "populate_loop arr (nextSibling (siblings ?s0) (self ?s0)) ?s0 = Inr s1"
    and wf1: "well_formed s1" and al1: "aligned arr s1"
    and c1: "dataContext s1 = ObservableArray arr"
    by (auto simp: ctx)
  let ?s2 = "s1\<lparr>dataBinder := resolveAllBindings (dataBinder s1)\<rparr>"
  have pop: "populateAllItems ?s0 = Inr ?s2"
    using run by (simp add: populateAllItems_def ctx)
  have "dataContextUpdated s
      = Inr (?s2\<lparr>arraySubscriptions := Suc (arraySubscriptions ?s2)\<rparr>)"
    using rm pop c1 by (simp add: dataContextUpdated_def)
  moreover have "aligned arr (?s2\<lparr>arraySubscriptions := Suc (arraySubscriptions ?s2)\<rparr>)"
    using al1 by (simp add: aligned_def)
  moreover have "well_formed (?s2\<lparr>arraySubscriptions := Suc (arraySubscriptions ?s2)\<rparr>)"
    using wf1 by (simp add: well_formed_def)
  ultimately show ?thesis by blast
qed

subsection \<open>Sample runs of the repeater\<close>

lemma sample_attached:
  "attachedCallback id (fresh_repeater [sample_template] (ObservableArray [''x'']))
     = Inr sample_populated"
  by (simp add: attachedCallback_def dataContextUpdated_def populateAllItems_def
      fresh_repeater_def sample_template_def sample_populated_def sample_binding_def
      clone_template_def insertBefore_def processBindings_def resolveAllBindings_def Let_def)

lemma sample_empty_attached:
  "attachedCallback id (fresh_repeater [sample_template] (ObservableArray [])) = Inr sample_empty"
  by (simp add: attachedCallback_def dataContextUpdated_def populateAllItems_def
      fresh_repeater_def sample_template_def sample_empty_def resolveAllBindings_def Let_def)



subsection \<open>Index alignment\<close>



subsection \<open>The insertion point\<close>

text \<open>
  C2.  In a child list without repetition, \<^verbatim>\<open>itemAdded\<close> returns and puts the nodes of
  the clone: right after the repeater's own element, so immediately before its next
  sibling, when there is no item; immediately before the first node of the entry at the
  position, as it was before the splice, when the position is below the number of
  entries; immediately after the last node of the last entry otherwise.  The new entry
  is spliced into \<^verbatim>\<open>itemNodes\<close> at the position.
\<close>

theorem insertion_point:
  assumes "template s = Some content" and "distinct (siblings s)"
    and "siblings s = pre @ r # post"
  shows "(itemNodes s = [] \<and> r = self s \<longrightarrow>
            (\<exists>s'. itemAdded x p s = Inr s' \<and> siblings s' = pre @ r # new_nodes s @ post \<and>
                  itemNodes s' = splice_in p (new_nodes s) (itemNodes s))) \<and>
         (itemNodes s \<noteq> [] \<and> p < length (itemNodes s) \<and> itemNodes s ! p \<noteq> [] \<and>
            r = hd (itemNodes s ! p) \<longrightarrow>
            (\<exists>s'. itemAdded x p s = Inr s' \<and> siblings s' = pre @ new_nodes s @ r # post \<and>
                  itemNodes s' = splice_in p (new_nodes s) (itemNodes s))) \<and>
         (itemNodes s \<noteq> [] \<and> length (itemNodes s) \<le> p \<and> last (itemNodes s) \<noteq> [] \<and>
            r = last (last (itemNodes s)) \<longrightarrow>
            (\<exists>s'. itemAdded x p s = Inr s' \<and> siblings s' = pre @ r # new_nodes s @ post \<and>
                  itemNodes s' = splice_in p (new_nodes s) (itemNodes s)))"
proof -
  from assms(2,3) have d: "distinct (pre @ r # post)" and npre: "r \<notin> set pre"
    by auto
  note after = insertBefore_after [OF d, of "new_nodes s"]
  note before = insertBefore_at [OF npre, of post "new_nodes s"]
  have first: "itemNodes s = [] \<and> r = self s \<longrightarrow>
            (\<exists>s'. itemAdded x p s = Inr s' \<and> siblings s' = pre @ r # new_nodes s @ post \<and>
                  itemNodes s' = splice_in p (new_nodes s) (itemNodes s))"
  proof
    assume h: "itemNodes s = [] \<and> r = self s"
    then have ref: "reference_node p s = Inr (nextSibling (pre @ r # post) r)"
      by (simp add: reference_node_def assms(3))
    from itemAdded_with_reference [OF assms(1) ref, of "pre @ r # new_nodes s @ post" x] after
    show "\<exists>s'. itemAdded x p s = Inr s' \<and> siblings s' = pre @ r # new_nodes s @ post \<and>
                  itemNodes s' = splice_in p (new_nodes s) (itemNodes s)"
      by (auto simp: assms(3))
  qed
  have middle: "itemNodes s \<noteq> [] \<and> p < length (itemNodes s) \<and> itemNodes s ! p \<noteq> [] \<and>
            r = hd (itemNodes s ! p) \<longrightarrow>
            (\<exists>s'. itemAdded x p s = Inr s' \<and> siblings s' = pre @ new_nodes s @ r # post \<and>
                  itemNodes s' = splice_in p (new_nodes s) (itemNodes s))"
  proof
    assume h: "itemNodes s \<noteq> [] \<and> p < length (itemNodes s) \<and> itemNodes s ! p \<noteq> [] \<and>
            r = hd (itemNodes s ! p)"
    then have ref: "reference_node p s = Inr (Some r)"
      by (cases "itemNodes s ! p") (simp_all add: reference_node_def)
    from itemAdded_with_reference [OF assms(1) ref, of "pre @ new_nodes s @ r # post" x] before
    show "\<exists>s'. itemAdded x p s = Inr s' \<and> siblings s' = pre @ new_nodes s @ r # post \<and>
                  itemNodes s' = splice_in p (new_nodes s) (itemNodes s)"
      by (auto simp: assms(3))
  qed
  have last: "itemNodes s \<noteq> [] \<and> length (itemNodes s) \<le> p \<and> last (itemNodes s) \<noteq> [] \<and>
            r = last (last (itemNodes s)) \<longrightarrow>
            (\<exists>s'. itemAdded x p s = Inr s' \<and> siblings s' = pre @ r # new_nodes s @ post \<and>
                  itemNodes s' = splice_in p (new_nodes s) (itemNodes s))"
  proof
    assume h: "itemNodes s \<noteq> [] \<and> length (itemNodes s) \<le> p \<and> last (itemNodes s) \<noteq> [] \<and>
            r = last (last (itemNodes s))"
    then have ref: "reference_node p s = Inr (nextSibling (pre @ r # post) r)"
      by (cases "last (itemNodes s)") (simp_all add: reference_node_def assms(3))
    from itemAdded_with_reference [OF assms(1) ref, of "pre @ r # new_nodes s @ post" x] after
    show "\<exists>s'. itemAdded x p s = Inr s' \<and> siblings s' = pre @ r # new_nodes s @ post \<and>
                  itemNodes s' = splice_in p (new_nodes s) (itemNodes s)"
      by (auto simp: assms(3))
  qed
  from first middle last show ?thesis by blast
qed

theorem insertion_point_witness:
  "template sample_empty = Some [[''name''], []] \<and> distinct (siblings sample_empty) \<and>
   siblings sample_empty = [0] @ self sample_empty # [2] \<and> itemNodes sample_empty = [] \<and>
   (\<exists>s'. itemAdded ''x'' 0 sample_empty = Inr s' \<and> siblings s' = [0, 1, 10, 11, 2] \<and>
         itemNodes s' = [[10, 11]]) \<and>
   template sample_populated = Some [[''name''], []] \<and> distinct (siblings sample_populated) \<and>
   siblings sample_populated = [0, 1] @ hd (itemNodes sample_populated ! 0) # [11, 2] \<and>
   (\<exists>s'. itemAdded ''y'' 0 sample_populated = Inr s' \<and> siblings s' = [0, 1, 12, 13, 10, 11, 2] \<and>
         itemNodes s' = [[12, 13], [10, 11]]) \<and>
   siblings sample_populated = [0, 1, 10] @ last (last (itemNodes sample_populated)) # [2] \<and>
   (\<exists>s'. itemAdded ''y'' 1 sample_populated = Inr s' \<and> siblings s' = [0, 1, 10, 11, 12, 13, 2] \<and>
         itemNodes s' = [[10, 11], [12, 13]])"
proof -
  have e: "template sample_empty = Some [[''name''], []]" "distinct (siblings sample_empty)"
    "siblings sample_empty = [0] @ 1 # [2]" "itemNodes sample_empty = []" "self sample_empty = 1"
    "new_nodes sample_empty = [10, 11]"
    by (simp_all add: sample_empty_def fresh_repeater_def new_nodes_def upt_rec)
  have p: "template sample_populated = Some [[''name''], []]" "distinct (siblings sample_populated)"
    "siblings sample_populated = [0, 1] @ 10 # [11, 2]"
    "siblings sample_populated = [0, 1, 10] @ 11 # [2]"
    "itemNodes sample_populated = [[10, 11]]" "new_nodes sample_populated = [12, 13]"
    by (simp_all add: sample_populated_def new_nodes_def upt_rec)
  from insertion_point [OF e(1,2,3), of "''x''" 0] e(4,5,6)
  have a: "\<exists>s'. itemAdded ''x'' 0 sample_empty = Inr s' \<and> siblings s' = [0, 1, 10, 11, 2] \<and>
         itemNodes s' = [[10, 11]]"
    by (simp add: splice_in_def)
  from insertion_point [OF p(1,2,3), of "''y''" 0] p(5,6)
  have b: "\<exists>s'. itemAdded ''y'' 0 sample_populated = Inr s' \<and> siblings s' = [0, 1, 12, 13, 10, 11, 2] \<and>
         itemNodes s' = [[12, 13], [10, 11]]"
    by (simp add: splice_in_def)
  from insertion_point [OF p(1,2,4), of "''y''" 1] p(5,6)
  have c: "\<exists>s'. itemAdded ''y'' 1 sample_populated = Inr s' \<and> siblings s' = [0, 1, 10, 11, 12, 13, 2] \<and>
         itemNodes s' = [[10, 11], [12, 13]]"
    by (simp add: splice_in_def)
  from a b c e p show ?thesis by simp
qed

subsection \<open>Removal\<close>

text \<open>
  C3.  For a position that both lists have, whose entry's nodes are distinct children of
  the parent, \<^verbatim>\<open>itemRemoved\<close> returns.  The entry is spliced out of \<^verbatim>\<open>itemNodes\<close> and
  of \<^verbatim>\<open>itemNodeBindings\<close> at the position; its nodes, and only they, are gone from the
  child list; none of its binding records is subscribed any more, so a later change of
  any path in any scope patches nothing for a record of the entry.
\<close>

theorem removal_cleanup:
  assumes "p < length (itemNodes s)" and "p < length (itemNodeBindings s)"
    and "distinct (siblings s)" and "distinct (itemNodes s ! p)"
    and "set (itemNodes s ! p) \<subseteq> set (siblings s)"
  shows "\<exists>s'. itemRemoved p s = Inr s' \<and>
           itemNodes s' = splice_out p (itemNodes s) \<and>
           itemNodeBindings s' = splice_out p (itemNodeBindings s) \<and>
           siblings s' = filter (\<lambda>n. n \<notin> set (itemNodes s ! p)) (siblings s) \<and>
           set (itemNodes s ! p) \<inter> set (siblings s') = {} \<and>
           set (itemNodeBindings s ! p) \<inter> set (live (dataBinder s')) = {} \<and>
           (\<forall>sc path. \<exists>more.
              patches (valueChanged sc path (dataBinder s')) = patches (dataBinder s) @ more \<and>
              set more \<inter> set (itemNodeBindings s ! p) = {})"
proof -
  from remove_nodes_filter [OF assms(3,4,5)]
  have rm: "remove_nodes (itemNodes s ! p) (siblings s)
      = Inr (filter (\<lambda>n. n \<notin> set (itemNodes s ! p)) (siblings s))" .
  from itemRemoved_with_nodes [OF assms(1,2) rm] obtain s' where
    run: "itemRemoved p s = Inr s'"
    and sib: "siblings s' = filter (\<lambda>n. n \<notin> set (itemNodes s ! p)) (siblings s)"
    and nodes: "itemNodes s' = splice_out p (itemNodes s)"
    and binds: "itemNodeBindings s' = splice_out p (itemNodeBindings s)"
    and lv: "live (dataBinder s') = filter (\<lambda>r. r \<notin> set (itemNodeBindings s ! p)) (live (dataBinder s))"
    and pt: "patches (dataBinder s') = patches (dataBinder s)"
    by blast
  have gone: "set (itemNodes s ! p) \<inter> set (siblings s') = {}"
    by (auto simp: sib)
  have released: "set (itemNodeBindings s ! p) \<inter> set (live (dataBinder s')) = {}"
    by (auto simp: lv)
  have quiet: "\<forall>sc path. \<exists>more.
      patches (valueChanged sc path (dataBinder s')) = patches (dataBinder s) @ more \<and>
      set more \<inter> set (itemNodeBindings s ! p) = {}"
  proof (intro allI)
    fix sc path
    let ?more = "filter (\<lambda>r. b_scope r = sc \<and> b_path r = path) (live (dataBinder s'))"
    have "patches (valueChanged sc path (dataBinder s')) = patches (dataBinder s) @ ?more"
      by (simp add: valueChanged_def pt)
    moreover have "set ?more \<inter> set (itemNodeBindings s ! p) = {}"
      by (auto simp: lv)
    ultimately show "\<exists>more.
      patches (valueChanged sc path (dataBinder s')) = patches (dataBinder s) @ more \<and>
      set more \<inter> set (itemNodeBindings s ! p) = {}"
      by blast
  qed
  from run nodes binds sib gone released quiet show ?thesis by blast
qed

theorem removal_cleanup_witness:
  "(0::nat) < length (itemNodes sample_populated) \<and>
   0 < length (itemNodeBindings sample_populated) \<and>
   distinct (siblings sample_populated) \<and> distinct (itemNodes sample_populated ! 0) \<and>
   set (itemNodes sample_populated ! 0) \<subseteq> set (siblings sample_populated) \<and>
   (\<exists>s'. itemRemoved 0 sample_populated = Inr s' \<and> itemNodes s' = [] \<and>
         itemNodeBindings s' = [] \<and> siblings s' = [0, 1, 2] \<and> live (dataBinder s') = [] \<and>
         patches (valueChanged (0, ''x'') ''name'' (dataBinder s')) = [sample_binding])"
proof -
  have h: "(0::nat) < length (itemNodes sample_populated)"
    "0 < length (itemNodeBindings sample_populated)"
    "distinct (siblings sample_populated)" "distinct (itemNodes sample_populated ! 0)"
    "set (itemNodes sample_populated ! 0) \<subseteq> set (siblings sample_populated)"
    by (simp_all add: sample_populated_def)
  from removal_cleanup [OF h] obtain s' where
    run: "itemRemoved 0 sample_populated = Inr s'"
    and r: "itemNodes s' = splice_out 0 (itemNodes sample_populated)"
      "itemNodeBindings s' = splice_out 0 (itemNodeBindings sample_populated)"
      "siblings s' = filter (\<lambda>n. n \<notin> set (itemNodes sample_populated ! 0)) (siblings sample_populated)"
      "set (itemNodeBindings sample_populated ! 0) \<inter> set (live (dataBinder s')) = {}"
    and q: "\<And>sc path. \<exists>more.
        patches (valueChanged sc path (dataBinder s'))
          = patches (dataBinder sample_populated) @ more \<and>
        set more \<inter> set (itemNodeBindings sample_populated ! 0) = {}"
    by blast
  from itemRemoved_result(8) [OF run] have lv: "live (dataBinder s') = []"
    by (simp add: sample_populated_def)
  have "patches (valueChanged (0, ''x'') ''name'' (dataBinder s')) = [sample_binding]"
    using q [of "(0, ''x'')" "''name''"] lv itemRemoved_result(9) [OF run]
    by (simp add: valueChanged_def sample_populated_def)
  with run r lv h show ?thesis
    by (simp add: splice_out_def sample_populated_def)
qed

subsection \<open>Configuration errors\<close>

lemma remove_nodes_error: "remove_nodes ns sibs = Inl e \<Longrightarrow> e = TypeError"
  by (induction ns arbitrary: sibs)
    (auto simp: removeChild_def split: if_splits sum.splits)

lemma insertBefore_error: "insertBefore sibs new refNode = Inl e \<Longrightarrow> e = NotFoundError"
  by (auto simp: insertBefore_def split: option.splits)

lemma populate_loop_error:
  "populate_loop arr refNode s = Inl e \<Longrightarrow> e = TypeError \<or> e = NotFoundError"
proof (induction arr arbitrary: refNode s)
  case Nil
  then show ?case by simp
next
  case (Cons x xs)
  then show ?case
    by (auto simp: Let_def split: option.splits prod.splits sum.splits list.splits
        dest: insertBefore_error)
qed

lemma dataContextUpdated_error:
  "dataContextUpdated s = Inl e \<Longrightarrow> e = TypeError \<or> e = NotFoundError"
  by (auto simp: dataContextUpdated_def populateAllItems_def
      split: sum.splits context_value.splits
      dest: remove_nodes_error populate_loop_error)

lemma bind_item_events_error: "bind_item_events attrs s = Inl e \<Longrightarrow> e = TypeError"
proof (induction attrs arbitrary: s)
  case Nil
  then show ?case by simp
next
  case (Cons a attrs)
  then show ?case
    by (cases a) (auto split: if_splits option.splits)
qed

text \<open>
  C6, as the claim states it, fails: the element of the repeater has one child, a
  \<^verbatim>\<open>div\<close>, with the template below it.  No child of the repeater is a template, and
  \<^verbatim>\<open>attachedCallback\<close> returns without an error.
\<close>

theorem nested_template_counterexample:
  "list_all (\<lambda>h. \<not> is_template h)
     (hostChildren (fresh_repeater [HNode ''div'' [] [sample_template]] (ObservableArray []))) \<and>
   is_observable_array
     (dataContext (fresh_repeater [HNode ''div'' [] [sample_template]] (ObservableArray []))) \<and>
   \<not> isl (attachedCallback id
            (fresh_repeater [HNode ''div'' [] [sample_template]] (ObservableArray [])))"
  by (simp add: attachedCallback_def dataContextUpdated_def populateAllItems_def
      fresh_repeater_def sample_template_def Let_def)

text \<open>
  C6, amended.  \<^verbatim>\<open>attachedCallback\<close> throws its "Template undefined" error exactly when
  \<^verbatim>\<open>querySelector("template")\<close> finds no template among the descendants of the
  repeater's element, and its "Invalid data context" error exactly when there is one
  and the value of the data context is not an \<^verbatim>\<open>ObservableArray\<close>.  Neither is caught:
  the error is the result of the call.
\<close>

theorem configuration_errors:
  "(find_templates (hostChildren (base s)) = None \<longrightarrow>
      attachedCallback base s = Inl TemplateUndefined) \<and>
   (find_templates (hostChildren (base t)) \<noteq> None \<and> \<not> is_observable_array (dataContext (base t)) \<longrightarrow>
      attachedCallback base t = Inl InvalidDataContext) \<and>
   (attachedCallback base s = Inl TemplateUndefined \<longrightarrow>
      find_templates (hostChildren (base s)) = None) \<and>
   (attachedCallback base t = Inl InvalidDataContext \<longrightarrow>
      find_templates (hostChildren (base t)) \<noteq> None \<and> \<not> is_observable_array (dataContext (base t)))"
proof -
  have a: "find_templates (hostChildren (base s)) = None \<longrightarrow>
      attachedCallback base s = Inl TemplateUndefined"
    by (simp add: attachedCallback_def Let_def)
  have b: "find_templates (hostChildren (base t)) \<noteq> None \<and> \<not> is_observable_array (dataContext (base t)) \<longrightarrow>
      attachedCallback base t = Inl InvalidDataContext"
    by (cases "dataContext (base t)") (auto simp: attachedCallback_def Let_def)
  have c: "attachedCallback base s = Inl TemplateUndefined \<longrightarrow>
      find_templates (hostChildren (base s)) = None"
    by (auto simp: attachedCallback_def Let_def
        split: option.splits context_value.splits sum.splits
        dest: bind_item_events_error dataContextUpdated_error)
  have d: "attachedCallback base t = Inl InvalidDataContext \<longrightarrow>
      find_templates (hostChildren (base t)) \<noteq> None \<and> \<not> is_observable_array (dataContext (base t))"
    by (auto simp: attachedCallback_def Let_def
        split: option.splits context_value.splits sum.splits
        dest: bind_item_events_error dataContextUpdated_error)
  from a b c d show ?thesis by blast
qed

theorem configuration_errors_witness:
  "find_templates (hostChildren (id (fresh_repeater [] (ObservableArray [''x''])))) = None \<and>
   attachedCallback id (fresh_repeater [] (ObservableArray [''x''])) = Inl TemplateUndefined \<and>
   find_templates (hostChildren (id (fresh_repeater [sample_template] OtherObject))) \<noteq> None \<and>
   \<not> is_observable_array (dataContext (id (fresh_repeater [sample_template] OtherObject))) \<and>
   attachedCallback id (fresh_repeater [sample_template] OtherObject) = Inl InvalidDataContext"
  using configuration_errors [of id "fresh_repeater [] (ObservableArray [''x''])"
      "fresh_repeater [sample_template] OtherObject"]
  by (simp add: fresh_repeater_def sample_template_def)

end
